theory Spec2Isabelle
  imports Complex_Main
begin

section \<open>Decimal arithmetic as used by the checkout validator\<close>

text \<open>
  \<^verbatim>\<open>models.py\<close> converts every monetary float with \<^verbatim>\<open>Decimal(str(x))\<close> and then
  computes with Python's \<^verbatim>\<open>decimal\<close> module under the default context: precision 28,
  rounding half-even. A decimal is a coefficient and an exponent, its value is
  \<open>coeff * 10 ^ expo\<close>. Construction from a string or an int is exact; every arithmetic
  operation (\<^verbatim>\<open>+\<close>, \<^verbatim>\<open>-\<close>, \<^verbatim>\<open>*\<close>, \<^verbatim>\<open>abs\<close>) rounds its exact result to 28 significant
  digits; comparisons are exact.

  A monetary field of the model is the decimal that \<^verbatim>\<open>Decimal(str(x))\<close> yields for the
  float \<^verbatim>\<open>x\<close> of the source (the shortest decimal string that reads back as \<^verbatim>\<open>x\<close>);
  the binary float itself, infinities and NaN are outside the model, and so are the
  exponent limits of the context (\<open>\<plusminus>999999\<close>), which no product of a double and
  a quantity of fewer than 999000 digits reaches.
\<close>

datatype decimal = Decimal (coeff: int) (expo: int)

definition dec_val :: "decimal \<Rightarrow> rat" where
  "dec_val d = (if 0 \<le> expo d then of_int (coeff d) * 10 ^ nat (expo d)
                else of_int (coeff d) / 10 ^ nat (- expo d))"

fun ndigits :: "nat \<Rightarrow> nat" where
  "ndigits n = (if n < 10 then 1 else Suc (ndigits (n div 10)))"

declare ndigits.simps [simp del]

definition prec :: nat where
  "prec = 28"

definition round_half_even :: "int \<Rightarrow> nat \<Rightarrow> int" where
  \<comment> \<open>\<open>m / 10 ^ k\<close> rounded to the nearest integer, ties to the even one\<close>
  "round_half_even m k =
     (let q = \<bar>m\<bar> div 10 ^ k; r = \<bar>m\<bar> mod 10 ^ k;
          q' = (if 10 ^ k < 2 * r \<or> (2 * r = 10 ^ k \<and> odd q) then q + 1 else q)
      in sgn m * q')"

definition dec_fix :: "decimal \<Rightarrow> decimal" where
  \<comment> \<open>the context rounding applied to the exact result of an operation\<close>
  "dec_fix d =
     (let n = ndigits (nat \<bar>coeff d\<bar>)
      in if n \<le> prec then d
         else let k = n - prec; m = round_half_even (coeff d) k
              in if \<bar>m\<bar> = 10 ^ prec then Decimal (m div 10) (expo d + int k + 1)
                 else Decimal m (expo d + int k))"

definition dec_add :: "decimal \<Rightarrow> decimal \<Rightarrow> decimal" where
  "dec_add x y =
     (let e = min (expo x) (expo y)
      in dec_fix (Decimal (coeff x * 10 ^ nat (expo x - e) + coeff y * 10 ^ nat (expo y - e)) e))"

definition add_exact :: "decimal \<Rightarrow> decimal \<Rightarrow> decimal" where
  \<comment> \<open>the sum before the context rounds it\<close>
  "add_exact x y =
     (let e = min (expo x) (expo y)
      in Decimal (coeff x * 10 ^ nat (expo x - e) + coeff y * 10 ^ nat (expo y - e)) e)"

definition dec_neg :: "decimal \<Rightarrow> decimal" where
  \<comment> \<open>\<^verbatim>\<open>copy_negate\<close>: the sign flipped, nothing rounded\<close>
  "dec_neg x = Decimal (- coeff x) (expo x)"

definition dec_sub :: "decimal \<Rightarrow> decimal \<Rightarrow> decimal" where
  "dec_sub x y = dec_add x (dec_neg y)"

definition dec_mul :: "decimal \<Rightarrow> decimal \<Rightarrow> decimal" where
  "dec_mul x y = dec_fix (Decimal (coeff x * coeff y) (expo x + expo y))"

definition dec_abs :: "decimal \<Rightarrow> decimal" where
  "dec_abs x = dec_fix (Decimal \<bar>coeff x\<bar> (expo x))"

definition dec_less :: "decimal \<Rightarrow> decimal \<Rightarrow> bool" where
  "dec_less x y =
     (let e = min (expo x) (expo y)
      in coeff x * 10 ^ nat (expo x - e) < coeff y * 10 ^ nat (expo y - e))"

definition dec_of_int :: "int \<Rightarrow> decimal" where
  "dec_of_int n = Decimal n 0"

definition dec_sum :: "decimal list \<Rightarrow> decimal" where
  \<comment> \<open>\<^verbatim>\<open>sum(...)\<close>: starts from the int 0 and adds from the left\<close>
  "dec_sum ds = foldl dec_add (dec_of_int 0) ds"

definition dec_int :: "decimal \<Rightarrow> int" where
  \<comment> \<open>\<^verbatim>\<open>int(x)\<close>: truncation toward zero. For a double below \<open>2 ^ 53\<close> the truncation
      of its decimal string is the truncation of the double itself.\<close>
  "dec_int d = (if 0 \<le> expo d then coeff d * 10 ^ nat (expo d)
                else sgn (coeff d) * (\<bar>coeff d\<bar> div 10 ^ nat (- expo d)))"


section \<open>Data model (\<^verbatim>\<open>models.py\<close>)\<close>

record product =
  name :: string
  subtitle :: string
  price :: decimal
  currency :: string
  unit_p :: string
  product_img_url :: "string option"
  barcode :: "string option"
  id_p :: int
  quantity :: int

datatype OrderStatus = PENDING | PAID | FAILED | COMPLETED

record CheckoutPayload =
  items :: "product list"
  shipping_cost :: decimal
  subtotal :: decimal
  total_cost :: decimal

record OrderHistoryItem = CheckoutPayload +
  order_id :: string
  user_identity :: string
  created_at :: nat
  status :: OrderStatus

text \<open>The field constraints \<^verbatim>\<open>Field(..., ge=0)\<close>, checked before the model validator runs.\<close>

definition product_fields_ok :: "product \<Rightarrow> bool" where
  "product_fields_ok p \<longleftrightarrow> 0 \<le> coeff (price p) \<and> 0 \<le> quantity p"

definition payload_fields_ok :: "'a CheckoutPayload_scheme \<Rightarrow> bool" where
  "payload_fields_ok c \<longleftrightarrow>
     list_all product_fields_ok (items c) \<and> 0 \<le> coeff (shipping_cost c)
     \<and> 0 \<le> coeff (subtotal c) \<and> 0 \<le> coeff (total_cost c)"

definition calculated_subtotal :: "'a CheckoutPayload_scheme \<Rightarrow> decimal" where
  "calculated_subtotal c =
     dec_sum (map (\<lambda>item. dec_mul (price item) (dec_of_int (quantity item))) (items c))"

definition calculated_total :: "'a CheckoutPayload_scheme \<Rightarrow> decimal" where
  "calculated_total c = dec_add (calculated_subtotal c) (shipping_cost c)"

definition mul_exact :: "decimal \<Rightarrow> decimal \<Rightarrow> decimal" where
  \<comment> \<open>the product before the context rounds it\<close>
  "mul_exact x y = Decimal (coeff x * coeff y) (expo x + expo y)"

definition fits :: "decimal \<Rightarrow> bool" where
  \<comment> \<open>the coefficient has at most 28 digits: the context leaves the decimal as it is\<close>
  "fits d \<longleftrightarrow> ndigits (nat \<bar>coeff d\<bar>) \<le> prec"

fun sum_fits :: "decimal \<Rightarrow> decimal list \<Rightarrow> bool" where
  "sum_fits acc [] = True"
| "sum_fits acc (d # ds) = (fits (add_exact acc d) \<and> sum_fits (add_exact acc d) ds)"

definition line_totals :: "'a CheckoutPayload_scheme \<Rightarrow> decimal list" where
  "line_totals c = map (\<lambda>item. mul_exact (price item) (dec_of_int (quantity item))) (items c)"

definition no_rounding :: "'a CheckoutPayload_scheme \<Rightarrow> bool" where
  \<comment> \<open>every product and every partial sum of the recomputation fits in 28 digits\<close>
  "no_rounding c \<longleftrightarrow>
     list_all fits (line_totals c) \<and> sum_fits (dec_of_int 0) (line_totals c)
     \<and> fits (add_exact (foldl add_exact (dec_of_int 0) (line_totals c)) (shipping_cost c))"

definition tolerance :: decimal where
  "tolerance = Decimal 1 (- 2)"

datatype validation_error = FieldConstraint | SubtotalMismatch | TotalCostMismatch

definition validate_and_recalculate_totals :: "'a CheckoutPayload_scheme \<Rightarrow> validation_error option" where
  "validate_and_recalculate_totals c =
     (if \<not> dec_less (dec_abs (dec_sub (subtotal c) (calculated_subtotal c))) tolerance
      then Some SubtotalMismatch
      else if \<not> dec_less (dec_abs (dec_sub (total_cost c) (calculated_total c))) tolerance
      then Some TotalCostMismatch
      else None)"

definition model_validate :: "'a CheckoutPayload_scheme \<Rightarrow> validation_error option" where
  \<comment> \<open>pydantic validation of a payload or of a stored order: fields first, then the validator\<close>
  "model_validate c =
     (if \<not> payload_fields_ok c then Some FieldConstraint
      else validate_and_recalculate_totals c)"


section \<open>The document store\<close>

text \<open>
  A collection is the list of its documents in storage order. \<^verbatim>\<open>find_one\<close> returns the
  first document that matches the filter, \<^verbatim>\<open>update_one\<close> changes the first document
  that matches and reports in \<^verbatim>\<open>matched_count\<close> whether there was one.
\<close>

definition find_one :: "('a \<Rightarrow> bool) \<Rightarrow> 'a list \<Rightarrow> 'a option" where
  "find_one P xs = List.find P xs"

fun update_one :: "('a \<Rightarrow> bool) \<Rightarrow> ('a \<Rightarrow> 'a) \<Rightarrow> 'a list \<Rightarrow> 'a list" where
  "update_one P f [] = []"
| "update_one P f (x # xs) = (if P x then f x # xs else x # update_one P f xs)"

definition matched_count :: "('a \<Rightarrow> bool) \<Rightarrow> 'a list \<Rightarrow> nat" where
  "matched_count P xs = (if list_ex P xs then 1 else 0)"

record cart_line =
  line_barcode :: string
  line_name :: string
  line_price :: decimal
  line_quantity :: int

record cart =
  cart_user :: string
  cart_items :: "cart_line list"

record db =
  products :: "product list"
  carts :: "cart list"
  order_history :: "OrderHistoryItem list"


section \<open>The inventory worker (\<^verbatim>\<open>orders/tasks.py\<close>)\<close>

type_synonym task_result = "string \<times> string"

definition inc_quantity :: "int \<Rightarrow> product \<Rightarrow> product" where
  \<comment> \<open>\<^verbatim>\<open>{"$inc": {"quantity": d}}\<close>\<close>
  "inc_quantity d p = p\<lparr>quantity := quantity p + d\<rparr>"

definition stock_filter :: "product \<Rightarrow> product \<Rightarrow> bool" where
  \<comment> \<open>\<^verbatim>\<open>{"id": item.id, "quantity": {"$gte": item.quantity}}\<close>\<close>
  "stock_filter item p \<longleftrightarrow> id_p p = id_p item \<and> quantity item \<le> quantity p"

definition id_filter :: "product \<Rightarrow> product \<Rightarrow> bool" where
  \<comment> \<open>\<^verbatim>\<open>{"id": u_item.id}\<close>\<close>
  "id_filter item p \<longleftrightarrow> id_p p = id_p item"

definition rollback :: "product list \<Rightarrow> product list \<Rightarrow> product list" where
  \<comment> \<open>the loop over \<^verbatim>\<open>updates_to_perform\<close>, oldest first\<close>
  "rollback ps done = foldl (\<lambda>ps u. update_one (id_filter u) (inc_quantity (quantity u)) ps) ps done"

fun reserve :: "product list \<Rightarrow> product list \<Rightarrow> product list
                \<Rightarrow> (product \<times> product list \<times> product list) + product list" where
  \<comment> \<open>the loop over \<^verbatim>\<open>order.items\<close>: \<open>Inl\<close> carries the item whose decrement matched
      nothing, the collection and \<^verbatim>\<open>updates_to_perform\<close> at that moment\<close>
  "reserve ps [] done = Inr ps"
| "reserve ps (item # rest) done =
     (if matched_count (stock_filter item) ps = 0 then Inl (item, ps, done)
      else reserve (update_one (stock_filter item) (inc_quantity (- quantity item)) ps)
                   rest (done @ [item]))"

definition set_status :: "OrderStatus \<Rightarrow> OrderHistoryItem \<Rightarrow> OrderHistoryItem" where
  "set_status st od = od\<lparr>status := st\<rparr>"

definition by_order_id :: "string \<Rightarrow> OrderHistoryItem \<Rightarrow> bool" where
  "by_order_id oid od \<longleftrightarrow> order_id od = oid"

definition process_order :: "string \<Rightarrow> db \<Rightarrow> (validation_error + task_result) \<times> db" where
  \<comment> \<open>\<open>Inl\<close> is the exception that \<^verbatim>\<open>OrderHistoryItem.model_validate\<close> raises\<close>
  "process_order oid s =
     (case find_one (by_order_id oid) (order_history s) of
        None \<Rightarrow> (Inr (''failure'', ''Order not found or not paid.''), s)
      | Some order_data \<Rightarrow>
          if status order_data \<noteq> PAID
          then (Inr (''failure'', ''Order not found or not paid.''), s)
          else (case model_validate order_data of
                  Some err \<Rightarrow> (Inl err, s)
                | None \<Rightarrow>
                    (case reserve (products s) (items order_data) [] of
                       Inl (item, ps, done) \<Rightarrow>
                         (Inr (''failure'', ''Insufficient stock for '' @ name item @ ''.''),
                          s\<lparr>order_history :=
                               update_one (by_order_id oid) (set_status FAILED) (order_history s),
                            products := rollback ps done\<rparr>)
                     | Inr ps \<Rightarrow>
                         (Inr (''success'', ''Inventory updated and order completed.''),
                          s\<lparr>products := ps,
                            order_history :=
                               update_one (by_order_id oid) (set_status COMPLETED) (order_history s)\<rparr>))))"



section \<open>The worker, one store call at a time\<close>

text \<open>
  \<^verbatim>\<open>process_order\<close> is not one atomic action: between two of its calls to the store,
  other workers and request handlers run. A worker's position in the task is its local
  state; \<open>worker_step\<close> performs the next store call. \<open>W_Loop\<close> holds the validated order,
  the items still to reserve and \<^verbatim>\<open>updates_to_perform\<close>.
\<close>

datatype worker =
    W_Start string
  | W_Loop OrderHistoryItem "product list" "product list"
  | W_SetFailed OrderHistoryItem product "product list"
  | W_Rollback product "product list"
  | W_Done "validation_error + task_result"

fun worker_step :: "worker \<Rightarrow> db \<Rightarrow> worker \<times> db" where
  "worker_step (W_Start oid) s =
     (case find_one (by_order_id oid) (order_history s) of
        None \<Rightarrow> (W_Done (Inr (''failure'', ''Order not found or not paid.'')), s)
      | Some order_data \<Rightarrow>
          if status order_data \<noteq> PAID
          then (W_Done (Inr (''failure'', ''Order not found or not paid.'')), s)
          else (case model_validate order_data of
                  Some err \<Rightarrow> (W_Done (Inl err), s)
                | None \<Rightarrow> (W_Loop order_data (items order_data) [], s)))"
| "worker_step (W_Loop od [] done) s =
     (W_Done (Inr (''success'', ''Inventory updated and order completed.'')),
      s\<lparr>order_history :=
           update_one (by_order_id (order_id od)) (set_status COMPLETED) (order_history s)\<rparr>)"
| "worker_step (W_Loop od (item # rest) done) s =
     (if matched_count (stock_filter item) (products s) = 0 then (W_SetFailed od item done, s)
      else (W_Loop od rest (done @ [item]),
            s\<lparr>products :=
                 update_one (stock_filter item) (inc_quantity (- quantity item)) (products s)\<rparr>))"
| "worker_step (W_SetFailed od item done) s =
     (W_Rollback item done,
      s\<lparr>order_history :=
           update_one (by_order_id (order_id od)) (set_status FAILED) (order_history s)\<rparr>)"
| "worker_step (W_Rollback item []) s =
     (W_Done (Inr (''failure'', ''Insufficient stock for '' @ name item @ ''.'')), s)"
| "worker_step (W_Rollback item (u # us)) s =
     (W_Rollback item us,
      s\<lparr>products := update_one (id_filter u) (inc_quantity (quantity u)) (products s)\<rparr>)"
| "worker_step (W_Done r) s = (W_Done r, s)"

fun worker_steps :: "nat \<Rightarrow> worker \<Rightarrow> db \<Rightarrow> worker \<times> db" where
  "worker_steps 0 w s = (w, s)"
| "worker_steps (Suc n) w s = (case worker_step w s of (w', s') \<Rightarrow> worker_steps n w' s')"

text \<open>Several workers share the store; \<open>sched_step i\<close> lets worker \<open>i\<close> perform its next store call.\<close>

definition sched_step :: "nat \<Rightarrow> worker list \<times> db \<Rightarrow> worker list \<times> db" where
  "sched_step i c =
     (case c of (ws, s) \<Rightarrow>
        if i < length ws
        then (case worker_step (ws ! i) s of (w', s') \<Rightarrow> (ws[i := w'], s'))
        else (ws, s))"

definition status_of :: "string \<Rightarrow> db \<Rightarrow> OrderStatus option" where
  "status_of oid s = map_option status (find_one (by_order_id oid) (order_history s))"



definition stock_nonneg :: "db \<Rightarrow> bool" where
  "stock_nonneg s \<longleftrightarrow> list_all (\<lambda>p. 0 \<le> quantity p) (products s)"


section \<open>Cart operations (\<^verbatim>\<open>cart/routes.py\<close>)\<close>

record CartOpRequest =
  req_barcode :: string
  action :: string
  req_quantity :: int


datatype cart_message =
    UnknownBarcode string
  | InsufficientStock int int
  | NotEnoughInCart int int
  | CartUpdated string int string

record CartOpResponse =
  success :: bool
  message :: cart_message
  cart_total_items :: int

datatype http_error =
    BadRequest400
  | Forbidden403
  | Unprocessable422 validation_error
  | InternalServerError500
  | ServiceUnavailable503 string

definition total_items :: "cart_line list \<Rightarrow> int" where
  \<comment> \<open>\<^verbatim>\<open>sum(item.get("quantity", 0) for item in ...)\<close>\<close>
  "total_items ls = sum_list (map line_quantity ls)"

definition by_user :: "string \<Rightarrow> cart \<Rightarrow> bool" where
  "by_user uid c \<longleftrightarrow> cart_user c = uid"

definition by_line :: "string \<Rightarrow> cart_line \<Rightarrow> bool" where
  "by_line bc l \<longleftrightarrow> line_barcode l = bc"

definition by_user_line :: "string \<Rightarrow> string \<Rightarrow> cart \<Rightarrow> bool" where
  \<comment> \<open>\<^verbatim>\<open>{"user_identity": ..., "items.barcode": ...}\<close>\<close>
  "by_user_line uid bc c \<longleftrightarrow> cart_user c = uid \<and> list_ex (by_line bc) (cart_items c)"

definition inc_line :: "string \<Rightarrow> int \<Rightarrow> cart \<Rightarrow> cart" where
  \<comment> \<open>\<^verbatim>\<open>{"$inc": {"items.$.quantity": d}}\<close>: the first line that matched the filter\<close>
  "inc_line bc d c =
     c\<lparr>cart_items :=
         update_one (by_line bc) (\<lambda>l. l\<lparr>line_quantity := line_quantity l + d\<rparr>) (cart_items c)\<rparr>"

definition push_line :: "cart_line \<Rightarrow> cart \<Rightarrow> cart" where
  "push_line l c = c\<lparr>cart_items := cart_items c @ [l]\<rparr>"

definition pull_lines :: "string \<Rightarrow> cart \<Rightarrow> cart" where
  \<comment> \<open>\<^verbatim>\<open>{"$pull": {"items": {"barcode": ...}}}\<close>: every line with the barcode\<close>
  "pull_lines bc c = c\<lparr>cart_items := filter (\<lambda>l. \<not> by_line bc l) (cart_items c)\<rparr>"

definition upsert_push :: "string \<Rightarrow> cart_line \<Rightarrow> cart list \<Rightarrow> cart list" where
  \<comment> \<open>\<^verbatim>\<open>update_one(..., {"$push": ...}, upsert=True)\<close>\<close>
  "upsert_push uid l cs =
     (if list_ex (by_user uid) cs then update_one (by_user uid) (push_line l) cs
      else cs @ [\<lparr>cart_user = uid, cart_items = [l]\<rparr>])"

definition user_cart_lines :: "string \<Rightarrow> db \<Rightarrow> cart_line list" where
  \<comment> \<open>\<^verbatim>\<open>user_cart.get("items", [])\<close>, with the empty cart when the user has none\<close>
  "user_cart_lines uid s =
     (case find_one (by_user uid) (carts s) of None \<Rightarrow> [] | Some c \<Rightarrow> cart_items c)"

definition cart_execute :: "string \<Rightarrow> CartOpRequest \<Rightarrow> product \<Rightarrow> cart_line option \<Rightarrow> db
                            \<Rightarrow> http_error + db" where
  \<comment> \<open>step 4 of \<^verbatim>\<open>cart_operation\<close>; \<open>Inl\<close> is the \<^verbatim>\<open>AttributeError\<close> of
      \<^verbatim>\<open>cart_item.get\<close> on \<^verbatim>\<open>None\<close>, turned into status 500\<close>
  "cart_execute uid request product cart_item s =
     (if action request = ''add'' then
        (case cart_item of
           Some l \<Rightarrow>
             Inr (s\<lparr>carts := update_one (by_user_line uid (req_barcode request))
                                (inc_line (req_barcode request) (req_quantity request)) (carts s)\<rparr>)
         | None \<Rightarrow>
             Inr (s\<lparr>carts := upsert_push uid
                                \<lparr>line_barcode = req_barcode request, line_name = name product,
                                 line_price = price product, line_quantity = req_quantity request\<rparr>
                                (carts s)\<rparr>))
      else if action request = ''remove'' then
        (case cart_item of
           None \<Rightarrow> Inl InternalServerError500
         | Some l \<Rightarrow>
             if line_quantity l = req_quantity request
             then Inr (s\<lparr>carts := update_one (by_user uid) (pull_lines (req_barcode request)) (carts s)\<rparr>)
             else Inr (s\<lparr>carts := update_one (by_user_line uid (req_barcode request))
                                     (inc_line (req_barcode request) (- req_quantity request))
                                     (carts s)\<rparr>))
      else Inr s)"

definition cart_operation :: "string \<Rightarrow> CartOpRequest \<Rightarrow> db \<Rightarrow> (http_error + CartOpResponse) \<times> db" where
  "cart_operation uid request s =
     (case find_one (\<lambda>p. barcode p = Some (req_barcode request)) (products s) of
        None \<Rightarrow>
          (Inr \<lparr>success = False, message = UnknownBarcode (req_barcode request),
                cart_total_items = 0\<rparr>, s)
      | Some product \<Rightarrow>
          let lines = user_cart_lines uid s;
              cart_item = find_one (by_line (req_barcode request)) lines;
              current_cart_quantity = (case cart_item of None \<Rightarrow> 0 | Some l \<Rightarrow> line_quantity l)
          in if action request = ''add'' \<and> quantity product < req_quantity request
             then (Inr \<lparr>success = False,
                        message = InsufficientStock (quantity product) (req_quantity request),
                        cart_total_items = total_items lines\<rparr>, s)
             else if action request \<noteq> ''add'' \<and> action request = ''remove''
                     \<and> current_cart_quantity < req_quantity request
             then (Inr \<lparr>success = False,
                        message = NotEnoughInCart current_cart_quantity (req_quantity request),
                        cart_total_items = total_items lines\<rparr>, s)
             else (case cart_execute uid request product cart_item s of
                     Inl err \<Rightarrow> (Inl err, s)
                   | Inr s' \<Rightarrow>
                       (case find_one (by_user uid) (carts s') of
                          None \<Rightarrow> (Inl InternalServerError500, s')
                        | Some updated_cart \<Rightarrow>
                            (Inr \<lparr>success = True,
                                  message = CartUpdated (action request) (req_quantity request)
                                              (name product),
                                  cart_total_items = total_items (cart_items updated_cart)\<rparr>,
                             s'))))"




section \<open>Checkout (\<^verbatim>\<open>orders/routes.py\<close>)\<close>

record VietQRGenerateRequest =
  accountNo :: string
  accountName :: string
  acqId :: int
  amount :: int
  addInfo :: string
  template :: string

record VietQRGenerateResponseData =
  qrCode :: string
  qrDataURL :: string

record VietQRGenerateResponse =
  code :: string
  desc :: string
  data :: "VietQRGenerateResponseData option"

text \<open>
  What the call to the provider can come back with. \<^verbatim>\<open>httpx.RequestError\<close> covers
  connection failures and every timeout (\<^verbatim>\<open>TimeoutException\<close> is one of its subclasses);
  \<^verbatim>\<open>HTTPStatusError\<close> is what \<^verbatim>\<open>raise_for_status\<close> raises on a 4xx or 5xx answer and
  is not a \<^verbatim>\<open>RequestError\<close>; an answer whose body is not a \<^verbatim>\<open>VietQRGenerateResponse\<close>
  makes \<^verbatim>\<open>response.json\<close> or \<^verbatim>\<open>model_validate\<close> raise.
\<close>

datatype provider_reply =
    RequestError
  | HTTPStatusError nat
  | InvalidBody
  | Reply VietQRGenerateResponse

record settings =
  VIETQR_BANK_BIN :: int
  VIETQR_ACCOUNT_NO :: string
  VIETQR_ACCOUNT_NAME :: string

record checkout_response =
  resp_message :: string
  resp_order_id :: string
  qr_svg :: string

record TokenData =
  identity :: string
  role :: "string option"

definition role_required :: "string list \<Rightarrow> TokenData \<Rightarrow> bool" where
  "role_required roles current_user \<longleftrightarrow> role current_user \<in> Some ` set roles"

definition pending_order :: "CheckoutPayload \<Rightarrow> string \<Rightarrow> string \<Rightarrow> nat \<Rightarrow> OrderHistoryItem" where
  "pending_order cart_data oid uid now =
     \<lparr>items = items cart_data, shipping_cost = shipping_cost cart_data,
      subtotal = subtotal cart_data, total_cost = total_cost cart_data,
      order_id = oid, user_identity = uid, created_at = now, status = PENDING\<rparr>"

definition vietqr_request_data :: "settings \<Rightarrow> OrderHistoryItem \<Rightarrow> VietQRGenerateRequest" where
  "vietqr_request_data cfg od =
     \<lparr>accountNo = VIETQR_ACCOUNT_NO cfg, accountName = VIETQR_ACCOUNT_NAME cfg,
      acqId = VIETQR_BANK_BIN cfg, amount = dec_int (total_cost od),
      addInfo = ''Thanh toan don hang '' @ order_id od, template = ''compact2''\<rparr>"

definition provider_result :: "(string \<Rightarrow> string) \<Rightarrow> string \<Rightarrow> provider_reply
                               \<Rightarrow> http_error + checkout_response" where
  \<comment> \<open>the \<^verbatim>\<open>try\<close> block: only \<^verbatim>\<open>httpx.RequestError\<close> is caught; any other exception
      leaves the handler and the framework answers 500\<close>
  "provider_result render oid reply =
     (case reply of
        RequestError \<Rightarrow> Inl (ServiceUnavailable503 ''Could not connect to the payment QR service.'')
      | HTTPStatusError n \<Rightarrow> Inl InternalServerError500
      | InvalidBody \<Rightarrow> Inl InternalServerError500
      | Reply api_response \<Rightarrow>
          (case data api_response of
             None \<Rightarrow> Inl (ServiceUnavailable503 (''Failed to generate QR code: '' @ desc api_response))
           | Some d \<Rightarrow>
               if code api_response \<noteq> ''00''
               then Inl (ServiceUnavailable503 (''Failed to generate QR code: '' @ desc api_response))
               else Inr \<lparr>resp_message = ''Order created. Please scan the QR code to pay.'',
                         resp_order_id = oid, qr_svg = render (qrCode d)\<rparr>))"

text \<open>
  The handler with what the framework does before it: the role check of the dependency,
  the validation of the body. The environment supplies the configuration, the fresh
  \<^verbatim>\<open>uuid4\<close>, the clock, the provider (a function of the request it is sent) and the SVG
  renderer. The third component of the result is the request sent to the provider, if
  the handler got that far.
\<close>

definition initiate_checkout_and_generate_qr ::
  "settings \<Rightarrow> (VietQRGenerateRequest \<Rightarrow> provider_reply) \<Rightarrow> (string \<Rightarrow> string) \<Rightarrow> string \<Rightarrow> nat
   \<Rightarrow> TokenData \<Rightarrow> CheckoutPayload \<Rightarrow> db
   \<Rightarrow> (http_error + checkout_response) \<times> db \<times> VietQRGenerateRequest option" where
  "initiate_checkout_and_generate_qr cfg provider render oid now current_user cart_data s =
     (if \<not> role_required [''shop_client'', ''guest''] current_user then (Inl Forbidden403, s, None)
      else (case model_validate cart_data of
              Some err \<Rightarrow> (Inl (Unprocessable422 err), s, None)
            | None \<Rightarrow>
                if items cart_data = [] then (Inl BadRequest400, s, None)
                else let po = pending_order cart_data oid (identity current_user) now;
                         s' = s\<lparr>order_history := order_history s @ [po]\<rparr>;
                         req = vietqr_request_data cfg po
                     in (provider_result render oid (provider req), s', Some req)))"


section \<open>Payment confirmation\<close>

datatype VietQRTransactionState = SUCCESS | FAILED_TX

record VietQRWebhookPayload =
  paymentRequestId :: string
  state :: VietQRTransactionState
  wh_amount :: int
  description :: string
  referenceId :: string
  merchantId :: string
  extraData :: string
  signature :: string

datatype webhook_result = Accepted | Rejected

definition payment_confirmation ::
  "(VietQRWebhookPayload \<Rightarrow> bool) \<Rightarrow> VietQRWebhookPayload \<Rightarrow> db \<times> string list
   \<Rightarrow> webhook_result \<times> db \<times> string list" where
  \<comment> \<open>Modelled from the spec: the handler of the payment webhook is not among the source
      files; \<^verbatim>\<open>orders/routes.py\<close> only imports \<^verbatim>\<open>hmac\<close>, \<^verbatim>\<open>hashlib\<close>,
      \<^verbatim>\<open>VietQRWebhookPayload\<close> and \<^verbatim>\<open>process_order\<close> for it. Section 4.3 of the
      specification: the signature is verified first (\<open>verify\<close> stands for the comparison
      with the HMAC under the shared secret); a verified SUCCESS for a pending order sets it
      to paid and puts its \<^verbatim>\<open>order_id\<close> on the work queue; a verified FAILED sets it to
      failed; an unknown order, a wrong amount or an order that is not pending is rejected
      and nothing changes.\<close>
  "payment_confirmation verify payload c =
     (case c of (s, queue) \<Rightarrow>
        if \<not> verify payload then (Rejected, s, queue)
        else (case find_one (by_order_id (referenceId payload)) (order_history s) of
                None \<Rightarrow> (Rejected, s, queue)
              | Some od \<Rightarrow>
                  if wh_amount payload \<noteq> dec_int (total_cost od) then (Rejected, s, queue)
                  else if status od \<noteq> PENDING then (Rejected, s, queue)
                  else (case state payload of
                          SUCCESS \<Rightarrow>
                            (Accepted,
                             s\<lparr>order_history :=
                                  update_one (\<lambda>d. by_order_id (referenceId payload) d \<and> status d = PENDING)
                                    (set_status PAID) (order_history s)\<rparr>,
                             queue @ [referenceId payload])
                        | FAILED_TX \<Rightarrow>
                            (Accepted,
                             s\<lparr>order_history :=
                                  update_one (\<lambda>d. by_order_id (referenceId payload) d \<and> status d = PENDING)
                                    (set_status FAILED) (order_history s)\<rparr>,
                             queue))))"


section \<open>Requests and interleavings\<close>

text \<open>
  The operations of the engine that the source files contain. \<open>serve\<close> runs one of them
  from start to end with nothing in between; \<open>occur\<close> is the finer view in which a
  \<open>Process\<close> request only starts a worker, whose store calls are then scheduled one by
  one (\<open>Step i\<close>) among the other events.
\<close>

datatype request =
    Cart string CartOpRequest
  | Checkout settings "VietQRGenerateRequest \<Rightarrow> provider_reply" "string \<Rightarrow> string" string nat
      TokenData CheckoutPayload
  | Process string

fun serve :: "request \<Rightarrow> db \<Rightarrow> db" where
  "serve (Cart uid r) s = snd (cart_operation uid r s)"
| "serve (Checkout cfg provider render oid now current_user cart_data) s =
     fst (snd (initiate_checkout_and_generate_qr cfg provider render oid now current_user cart_data s))"
| "serve (Process oid) s = snd (process_order oid s)"


datatype event = Request request | Step nat

fun occur :: "event \<Rightarrow> worker list \<times> db \<Rightarrow> worker list \<times> db" where
  "occur (Request (Process oid)) (ws, s) = (ws @ [W_Start oid], s)"
| "occur (Request r) (ws, s) = (ws, serve r s)"
| "occur (Step i) c = sched_step i c"

definition occur_all :: "event list \<Rightarrow> worker list \<times> db \<Rightarrow> worker list \<times> db" where
  "occur_all es c = foldl (\<lambda>c e. occur e c) c es"

definition items_nonneg :: "product list \<Rightarrow> bool" where
  "items_nonneg its \<longleftrightarrow> list_all (\<lambda>it. 0 \<le> quantity it) its"

fun worker_ok :: "worker \<Rightarrow> bool" where
  \<comment> \<open>what validation has established about the items a running worker holds\<close>
  "worker_ok (W_Loop od rest done) \<longleftrightarrow> items_nonneg rest \<and> items_nonneg done"
| "worker_ok (W_SetFailed od item done) \<longleftrightarrow> items_nonneg done"
| "worker_ok (W_Rollback item us) \<longleftrightarrow> items_nonneg us"
| "worker_ok w \<longleftrightarrow> True"

definition loop_result :: "OrderHistoryItem \<Rightarrow> product list \<Rightarrow> product list \<Rightarrow> db
                           \<Rightarrow> (validation_error + task_result) \<times> db" where
  \<comment> \<open>what \<^verbatim>\<open>process_order\<close> does from the loop on\<close>
  "loop_result od its done s =
     (case reserve (products s) its done of
        Inl (item, ps, dn) \<Rightarrow>
          (Inr (''failure'', ''Insufficient stock for '' @ name item @ ''.''),
           s\<lparr>order_history :=
                update_one (by_order_id (order_id od)) (set_status FAILED) (order_history s),
             products := rollback ps dn\<rparr>)
      | Inr ps \<Rightarrow>
          (Inr (''success'', ''Inventory updated and order completed.''),
           s\<lparr>products := ps,
             order_history :=
                update_one (by_order_id (order_id od)) (set_status COMPLETED) (order_history s)\<rparr>))"

definition adj :: "int \<Rightarrow> (product \<Rightarrow> product) \<Rightarrow> product list \<Rightarrow> product list" where
  \<comment> \<open>the update applied to every product with the given id\<close>
  "adj i f ps = map (\<lambda>p. if id_p p = i then f p else p) ps"

definition rollback_adj :: "product list \<Rightarrow> product list \<Rightarrow> product list" where
  "rollback_adj ps done = foldl (\<lambda>ps u. adj (id_p u) (inc_quantity (quantity u)) ps) ps done"


definition sys_inv :: "worker list \<times> db \<Rightarrow> bool" where
  \<comment> \<open>stock is non-negative and every running worker holds validated items\<close>
  "sys_inv c \<longleftrightarrow> list_all worker_ok (fst c) \<and> stock_nonneg (snd c)"





section \<open>Scenarios\<close>

text \<open>The scenarios of section 8 of the specification, as concrete stores and requests.\<close>

definition mk_product :: "string \<Rightarrow> int \<Rightarrow> string \<Rightarrow> decimal \<Rightarrow> int \<Rightarrow> product" where
  "mk_product n i bc pr q =
     \<lparr>name = n, subtitle = '''', price = pr, currency = ''VND'', unit_p = ''each'',
      product_img_url = None, barcode = Some bc, id_p = i, quantity = q\<rparr>"

definition stock_AB :: "product list" where
  \<comment> \<open>product A with 10 in stock, product B with 2\<close>
  "stock_AB = [mk_product ''A'' 1 ''8850718820634'' (Decimal 100 (- 1)) 10,
               mk_product ''B'' 2 ''8936036021660'' (Decimal 100 (- 1)) 2]"

definition order_AB :: "OrderStatus \<Rightarrow> OrderHistoryItem" where
  \<comment> \<open>the order \<open>[A: qty 5, B: qty 3]\<close> at 10.0 each, shipping 5.0\<close>
  "order_AB st =
     \<lparr>items = [mk_product ''A'' 1 ''8850718820634'' (Decimal 100 (- 1)) 5,
               mk_product ''B'' 2 ''8936036021660'' (Decimal 100 (- 1)) 3],
      shipping_cost = Decimal 50 (- 1), subtotal = Decimal 800 (- 1), total_cost = Decimal 850 (- 1),
      order_id = ''o1'', user_identity = ''u1'', created_at = 0, status = st\<rparr>"

definition db_AB :: "OrderStatus \<Rightarrow> db" where
  "db_AB st = \<lparr>products = stock_AB, carts = [], order_history = [order_AB st]\<rparr>"

definition payload_10x2 :: "decimal \<Rightarrow> CheckoutPayload" where
  \<comment> \<open>\<^verbatim>\<open>items=[{price:10.00, quantity:2}], shipping=5.00\<close>, total 25.00 and the given
      declared subtotal\<close>
  "payload_10x2 declared =
     \<lparr>items = [mk_product ''A'' 1 ''8850718820634'' (Decimal 100 (- 1)) 2],
      shipping_cost = Decimal 50 (- 1), subtotal = declared, total_cost = Decimal 250 (- 1)\<rparr>"


definition cfg0 :: settings where
  "cfg0 = \<lparr>VIETQR_BANK_BIN = 970415, VIETQR_ACCOUNT_NO = ''113366668888'',
            VIETQR_ACCOUNT_NAME = ''NOVA''\<rparr>"

definition client_u1 :: TokenData where
  "client_u1 = \<lparr>identity = ''u1'', role = Some ''shop_client''\<rparr>"

definition webhook_o1 :: "VietQRTransactionState \<Rightarrow> int \<Rightarrow> string \<Rightarrow> VietQRWebhookPayload" where
  \<comment> \<open>a notification for order o1\<close>
  "webhook_o1 st amt sig =
     \<lparr>paymentRequestId = ''p1'', state = st, wh_amount = amt, description = [],
      referenceId = ''o1'', merchantId = ''m1'', extraData = [], signature = sig\<rparr>"

definition verify0 :: "VietQRWebhookPayload \<Rightarrow> bool" where
  \<comment> \<open>a stand-in for the signature check: one signature is the valid one\<close>
  "verify0 payload \<longleftrightarrow> signature payload = ''valid''"

definition db_cart :: db where
  \<comment> \<open>user u1 has three of A in the cart\<close>
  "db_cart =
     \<lparr>products = stock_AB,
      carts = [\<lparr>cart_user = ''u1'',
                cart_items = [\<lparr>line_barcode = ''8850718820634'', line_name = ''A'',
                               line_price = Decimal 100 (- 1), line_quantity = 3\<rparr>]\<rparr>],
      order_history = []\<rparr>"

definition db_one :: db where
  \<comment> \<open>one unit of A in stock and a paid order for one A\<close>
  "db_one =
     \<lparr>products = [mk_product ''A'' 1 ''8850718820634'' (Decimal 100 (- 1)) 1],
      carts = [],
      order_history =
        [\<lparr>items = [mk_product ''A'' 1 ''8850718820634'' (Decimal 100 (- 1)) 1],
          shipping_cost = Decimal 50 (- 1), subtotal = Decimal 100 (- 1),
          total_cost = Decimal 150 (- 1),
          order_id = ''o1'', user_identity = ''u1'', created_at = 0, status = PAID\<rparr>]\<rparr>"


section \<open>Values of decimals, rounding and the tolerance\<close>



lemma dec_val_powi: "dec_val d = of_int (coeff d) * (10::rat) powi expo d"
proof (cases "0 \<le> expo d")
  case True
  then show ?thesis by (simp only: dec_val_def power_int_def if_True)
next
  case False
  then have "dec_val d = of_int (coeff d) / 10 ^ nat (- expo d)"
    by (simp only: dec_val_def if_False)
  also have "\<dots> = of_int (coeff d) * inverse ((10::rat) ^ nat (- expo d))"
    by (simp only: divide_inverse)
  also have "inverse ((10::rat) ^ nat (- expo d)) = inverse 10 ^ nat (- expo d)"
    by (simp only: power_inverse)
  also have "\<dots> = (10::rat) powi expo d"
    using False by (simp only: power_int_def if_False)
  finally show ?thesis .
qed

lemma scale_powi:
  assumes "e \<le> a"
  shows "of_int (c * 10 ^ nat (a - e)) * (10::rat) powi e = of_int c * 10 powi a"
proof -
  have "(10::rat) ^ nat (a - e) = 10 powi (a - e)"
    using assms by (simp add: power_int_def)
  then have "of_int (c * 10 ^ nat (a - e)) * (10::rat) powi e = of_int c * (10 powi (a - e) * 10 powi e)"
    by simp
  also have "(10::rat) powi (a - e) * 10 powi e = 10 powi a"
    using power_int_add [of "10::rat" "a - e" e] by simp
  finally show ?thesis .
qed

lemma dec_less_iff: "dec_less x y \<longleftrightarrow> dec_val x < dec_val y"
proof -
  let ?e = "min (expo x) (expo y)"
  let ?a = "coeff x * 10 ^ nat (expo x - ?e)"
  let ?b = "coeff y * 10 ^ nat (expo y - ?e)"
  have pos: "0 < (10::rat) powi ?e" by simp
  have "dec_less x y \<longleftrightarrow> ?a < ?b" by (simp add: dec_less_def Let_def)
  also have "\<dots> \<longleftrightarrow> (of_int ?a :: rat) < of_int ?b" by (simp only: of_int_less_iff)
  also have "\<dots> \<longleftrightarrow> of_int ?a * (10::rat) powi ?e < of_int ?b * 10 powi ?e"
    using pos by (simp only: mult_less_cancel_right_pos)
  also have "of_int ?a * (10::rat) powi ?e = dec_val x"
    by (simp only: dec_val_powi scale_powi [of ?e "expo x" "coeff x", OF min.cobounded1])
  also have "of_int ?b * (10::rat) powi ?e = dec_val y"
    by (simp only: dec_val_powi scale_powi [of ?e "expo y" "coeff y", OF min.cobounded2])
  finally show ?thesis .
qed

lemma dec_add_fix: "dec_add x y = dec_fix (add_exact x y)"
  by (simp add: dec_add_def add_exact_def Let_def)

lemma add_exact_val: "dec_val (add_exact x y) = dec_val x + dec_val y"
proof -
  let ?e = "min (expo x) (expo y)"
  have "dec_val (add_exact x y)
      = of_int (coeff x * 10 ^ nat (expo x - ?e)) * (10::rat) powi ?e
        + of_int (coeff y * 10 ^ nat (expo y - ?e)) * 10 powi ?e"
    by (simp add: add_exact_def Let_def dec_val_powi algebra_simps)
  also have "\<dots> = dec_val x + dec_val y"
    by (simp only: dec_val_powi scale_powi [of ?e "expo x" "coeff x", OF min.cobounded1]
        scale_powi [of ?e "expo y" "coeff y", OF min.cobounded2])
  finally show ?thesis .
qed

lemma dec_neg_val: "dec_val (dec_neg x) = - dec_val x"
  by (simp add: dec_neg_def dec_val_powi)

lemma abs_exact_val: "dec_val (Decimal \<bar>coeff x\<bar> (expo x)) = \<bar>dec_val x\<bar>"
  by (simp add: dec_val_powi abs_mult)




lemma ndigits_upper: "n < 10 ^ ndigits n"
proof (induction n rule: ndigits.induct)
  case (1 n)
  show ?case
  proof (cases "n < 10")
    case True
    then show ?thesis by (simp add: ndigits.simps [of n])
  next
    case False
    with 1 have "n div 10 < 10 ^ ndigits (n div 10)" by simp
    then have "n < 10 * 10 ^ ndigits (n div 10)" by simp
    with False show ?thesis by (simp add: ndigits.simps [of n])
  qed
qed

lemma ndigits_lower: "0 < n \<Longrightarrow> 10 ^ (ndigits n - 1) \<le> n"
proof (induction n rule: ndigits.induct)
  case (1 n)
  show ?case
  proof (cases "n < 10")
    case True
    with 1 show ?thesis by (simp add: ndigits.simps [of n])
  next
    case False
    then have "0 < n div 10" by simp
    with 1 False have "10 ^ (ndigits (n div 10) - 1) \<le> n div 10" by simp
    then have "10 * 10 ^ (ndigits (n div 10) - 1) \<le> n" by simp
    moreover have "0 < ndigits (n div 10)" by (simp add: ndigits.simps [of "n div 10"])
    ultimately have "10 ^ ndigits (n div 10) \<le> n"
      by (cases "ndigits (n div 10)") simp_all
    with False show ?thesis by (simp add: ndigits.simps [of n])
  qed
qed




lemma round_half_even_abs_ge: "\<bar>m\<bar> div 10 ^ k \<le> \<bar>round_half_even m k\<bar>"
proof (cases "m = 0")
  case True
  then show ?thesis by (simp add: round_half_even_def)
next
  case False
  define q where "q = \<bar>m\<bar> div 10 ^ k"
  define r where "r = \<bar>m\<bar> mod 10 ^ k"
  define q' where "q' = (if 10 ^ k < 2 * r \<or> (2 * r = 10 ^ k \<and> odd q) then q + 1 else q)"
  have rhe: "round_half_even m k = sgn m * q'"
    by (simp only: round_half_even_def Let_def q_def r_def q'_def)
  have q: "0 \<le> q" unfolding q_def by (rule pos_imp_zdiv_nonneg_iff [THEN iffD2]) simp_all
  have qq: "q \<le> q'" by (simp add: q'_def)
  from False have "\<bar>sgn m\<bar> = 1" by (simp add: sgn_if)
  then have "\<bar>round_half_even m k\<bar> = \<bar>q'\<bar>" by (simp only: rhe abs_mult mult_1)
  with q qq show ?thesis unfolding q_def [symmetric] by linarith
qed


lemma hundredth_powi: "(1 / 100 :: rat) = 10 powi (- 2)"
  by (simp add: power_int_minus_divide)

lemma powi_nat: "(10::rat) ^ n = 10 powi int n"
  by simp

lemma dec_fix_abs_val:
  assumes big: "1 / 100 \<le> \<bar>dec_val d\<bar>"
  shows "1 / 100 \<le> \<bar>dec_val (dec_fix d)\<bar>"
proof (cases "ndigits (nat \<bar>coeff d\<bar>) \<le> prec")
  case True
  with big show ?thesis by (simp add: dec_fix_def Let_def)
next
  case False
  define m where "m = coeff d"
  define e where "e = expo d"
  define n where "n = ndigits (nat \<bar>m\<bar>)"
  define k where "k = n - prec"
  define m' where "m' = round_half_even m k"
  from False have nk: "n = prec + k" and k: "0 < k" by (simp_all add: n_def k_def m_def)
  have mpos: "0 < nat \<bar>m\<bar>"
  proof (rule ccontr)
    assume "\<not> 0 < nat \<bar>m\<bar>"
    then have "nat \<bar>m\<bar> = 0" by simp
    then have "n = 1" by (simp add: n_def ndigits.simps [of 0])
    with nk k show False by (simp add: prec_def)
  qed
  \<comment> \<open>the coefficient has \<open>n\<close> digits\<close>
  have "10 ^ (n - 1) \<le> nat \<bar>m\<bar>" unfolding n_def using mpos by (rule ndigits_lower)
  then have "int (10 ^ (n - 1)) \<le> \<bar>m\<bar>" by linarith
  then have lower: "(10::int) ^ (27 + k) \<le> \<bar>m\<bar>" by (simp add: nk prec_def)
  have "nat \<bar>m\<bar> < 10 ^ n" unfolding n_def by (rule ndigits_upper)
  then have "\<bar>m\<bar> < int (10 ^ n)" by linarith
  then have upper: "\<bar>m\<bar> < (10::int) ^ n" by simp
  \<comment> \<open>so the exponent cannot be far below \<open>-2\<close>\<close>
  have val: "\<bar>dec_val d\<bar> = of_int \<bar>m\<bar> * (10::rat) powi e"
    by (simp add: dec_val_powi m_def e_def abs_mult)
  have "of_int \<bar>m\<bar> < (of_int ((10::int) ^ n) :: rat)" using upper by (simp only: of_int_less_iff)
  then have "of_int \<bar>m\<bar> < (10::rat) powi int n" by simp
  then have "of_int \<bar>m\<bar> * (10::rat) powi e < 10 powi int n * 10 powi e"
    by (simp only: mult_less_cancel_right_pos zero_less_power_int zero_less_numeral)
  also have "(10::rat) powi int n * 10 powi e = 10 powi (int n + e)"
    using power_int_add [of "10::rat" "int n" e] by simp
  finally have "(10::rat) powi (- 2) < 10 powi (int n + e)"
    using big val by (simp only: hundredth_powi)
  have expo: "- 2 \<le> 27 + int k + e"
  proof (rule ccontr)
    assume "\<not> - 2 \<le> 27 + int k + e"
    then have "int n + e \<le> - 2" by (simp add: nk prec_def)
    then have "(10::rat) powi (int n + e) \<le> 10 powi (- 2)"
      by (rule power_int_increasing) simp
    with \<open>(10::rat) powi (- 2) < 10 powi (int n + e)\<close> show False by simp
  qed
  \<comment> \<open>the rounded coefficient still has 28 digits\<close>
  have "(10::int) ^ 27 * 10 ^ k \<le> \<bar>m\<bar>" using lower by (simp add: power_add)
  then have "(10::int) ^ 27 * 10 ^ k div 10 ^ k \<le> \<bar>m\<bar> div 10 ^ k"
    by (rule zdiv_mono1) simp
  then have "(10::int) ^ 27 \<le> \<bar>m\<bar> div 10 ^ k" by simp
  also have "\<dots> \<le> \<bar>m'\<bar>" unfolding m'_def by (rule round_half_even_abs_ge)
  finally have m': "(10::int) ^ 27 \<le> \<bar>m'\<bar>" .
  have out: "(10::rat) powi (27 + int k + e) \<le> \<bar>dec_val (dec_fix d)\<bar>"
  proof (cases "\<bar>m'\<bar> = 10 ^ prec")
    case True
    then have fx: "dec_fix d = Decimal (m' div 10) (e + int k + 1)"
      using False by (simp add: dec_fix_def Let_def m_def [symmetric] e_def [symmetric]
          n_def [symmetric] k_def [symmetric] m'_def [symmetric])
    from True have "m' = 10 ^ 28 \<or> m' = - (10 ^ 28)" by (auto simp: prec_def abs_if split: if_splits)
    then have "\<bar>m' div 10\<bar> = 10 ^ 27" by auto
    then have "\<bar>dec_val (dec_fix d)\<bar> = (10::rat) ^ 27 * 10 powi (e + int k + 1)"
      by (simp add: fx dec_val_powi abs_mult del: power_int_add)
    also have "(10::rat) ^ 27 = 10 powi 27" by simp
    also have "(10::rat) powi 27 * 10 powi (e + int k + 1) = 10 powi (27 + (e + int k + 1))"
      using power_int_add [of "10::rat" 27 "e + int k + 1"] by simp
    finally have "\<bar>dec_val (dec_fix d)\<bar> = (10::rat) powi (27 + (e + int k + 1))" .
    moreover have "(10::rat) powi (27 + int k + e) \<le> 10 powi (27 + (e + int k + 1))"
      by (rule power_int_increasing) simp_all
    ultimately show ?thesis by simp
  next
    case neq: False
    then have fx: "dec_fix d = Decimal m' (e + int k)"
      using False by (simp add: dec_fix_def Let_def m_def [symmetric] e_def [symmetric]
          n_def [symmetric] k_def [symmetric] m'_def [symmetric])
    have "(of_int ((10::int) ^ 27) :: rat) \<le> of_int \<bar>m'\<bar>" using m' by (simp only: of_int_le_iff)
    then have c: "(10::rat) powi 27 \<le> of_int \<bar>m'\<bar>" by simp
    have p: "(10::rat) powi (27 + int k + e) = 10 powi 27 * 10 powi (e + int k)"
    proof -
      have "27 + int k + e = 27 + (e + int k)" by simp
      then have "(10::rat) powi (27 + int k + e) = 10 powi (27 + (e + int k))" by (simp only:)
      also have "\<dots> = 10 powi 27 * 10 powi (e + int k)" by (rule power_int_add) simp
      finally show ?thesis .
    qed
    have v: "\<bar>dec_val (dec_fix d)\<bar> = of_int \<bar>m'\<bar> * (10::rat) powi (e + int k)"
      by (simp add: fx dec_val_powi abs_mult)
    show ?thesis unfolding p v using c by (rule mult_right_mono) simp
  qed
  have "(10::rat) powi (- 2) \<le> 10 powi (27 + int k + e)"
    using expo by (rule power_int_increasing) simp
  with out show ?thesis by (simp only: hundredth_powi)
qed

lemma round_half_even_nonneg: "0 \<le> m \<Longrightarrow> 0 \<le> round_half_even m k"
proof -
  assume m: "0 \<le> m"
  define q where "q = \<bar>m\<bar> div 10 ^ k"
  define r where "r = \<bar>m\<bar> mod 10 ^ k"
  define q' where "q' = (if 10 ^ k < 2 * r \<or> (2 * r = 10 ^ k \<and> odd q) then q + 1 else q)"
  have rhe: "round_half_even m k = sgn m * q'"
    by (simp only: round_half_even_def Let_def q_def r_def q'_def)
  have "0 \<le> q" unfolding q_def by (rule pos_imp_zdiv_nonneg_iff [THEN iffD2]) simp_all
  then have "0 \<le> q'" by (simp add: q'_def)
  moreover from m have "0 \<le> sgn m" by (simp add: sgn_if)
  ultimately show ?thesis unfolding rhe by (rule mult_nonneg_nonneg [rotated])
qed

lemma dec_fix_nonneg: "0 \<le> coeff d \<Longrightarrow> 0 \<le> coeff (dec_fix d)"
  by (simp add: dec_fix_def Let_def round_half_even_nonneg pos_imp_zdiv_nonneg_iff)

lemma dec_val_nonneg: "0 \<le> coeff d \<Longrightarrow> 0 \<le> dec_val d"
  by (simp add: dec_val_powi)

lemma tolerance_test:
  assumes "1 / 100 \<le> \<bar>dec_val a - dec_val b\<bar>"
  shows "\<not> dec_less (dec_abs (dec_sub a b)) tolerance"
proof -
  have "dec_val (add_exact a (dec_neg b)) = dec_val a - dec_val b"
    by (simp add: add_exact_val dec_neg_val)
  with assms have "1 / 100 \<le> \<bar>dec_val (add_exact a (dec_neg b))\<bar>"
    by (simp only:)
  then have "1 / 100 \<le> \<bar>dec_val (dec_fix (add_exact a (dec_neg b)))\<bar>"
    by (rule dec_fix_abs_val)
  then have "1 / 100 \<le> \<bar>dec_val (dec_sub a b)\<bar>"
    by (simp only: dec_sub_def dec_add_fix)
  then have "1 / 100 \<le> \<bar>dec_val (Decimal \<bar>coeff (dec_sub a b)\<bar> (expo (dec_sub a b)))\<bar>"
    by (simp only: abs_exact_val abs_abs)
  then have "1 / 100 \<le> \<bar>dec_val (dec_abs (dec_sub a b))\<bar>"
    unfolding dec_abs_def by (rule dec_fix_abs_val)
  moreover have "0 \<le> dec_val (dec_abs (dec_sub a b))"
    unfolding dec_abs_def by (rule dec_val_nonneg, rule dec_fix_nonneg) simp
  ultimately have "1 / 100 \<le> dec_val (dec_abs (dec_sub a b))" by linarith
  moreover have "dec_val tolerance = 1 / 100" by (simp add: tolerance_def dec_val_def)
  ultimately show ?thesis by (simp only: dec_less_iff not_less)
qed


section \<open>The store and the rollback\<close>

lemma adj_absent: "i \<notin> set (map id_p ps) \<Longrightarrow> adj i f ps = ps"
  by (induction ps) (auto simp: adj_def)

lemma update_one_id_adj:
  "distinct (map id_p ps) \<Longrightarrow> update_one (id_filter u) f ps = adj (id_p u) f ps"
proof (induction ps)
  case Nil
  then show ?case by (simp add: adj_def)
next
  case (Cons x xs)
  show ?case
  proof (cases "id_p x = id_p u")
    case True
    with Cons.prems have "id_p u \<notin> set (map id_p xs)" by auto
    then have "adj (id_p u) f xs = xs" by (rule adj_absent)
    then have "map (\<lambda>p. if id_p p = id_p u then f p else p) xs = xs" by (simp add: adj_def)
    with True show ?thesis by (simp add: id_filter_def adj_def)
  next
    case False
    with Cons show ?thesis by (simp add: id_filter_def adj_def)
  qed
qed

lemma update_one_stock_adj:
  "distinct (map id_p ps) \<Longrightarrow> list_ex (stock_filter it) ps
   \<Longrightarrow> update_one (stock_filter it) f ps = adj (id_p it) f ps"
proof (induction ps)
  case Nil
  then show ?case by simp
next
  case (Cons x xs)
  show ?case
  proof (cases "id_p x = id_p it")
    case True
    with Cons.prems have absent: "id_p it \<notin> set (map id_p xs)" by auto
    have "\<not> list_ex (stock_filter it) xs"
    proof
      assume "list_ex (stock_filter it) xs"
      then obtain p where "p \<in> set xs" and "id_p p = id_p it"
        by (auto simp: list_ex_iff stock_filter_def)
      then have "id_p it \<in> id_p ` set xs" by (metis imageI)
      with absent show False by simp
    qed
    with Cons.prems have here: "stock_filter it x" by simp
    from absent have "adj (id_p it) f xs = xs" by (rule adj_absent)
    then have "map (\<lambda>p. if id_p p = id_p it then f p else p) xs = xs" by (simp add: adj_def)
    with True here show ?thesis by (simp add: adj_def)
  next
    case False
    then have "\<not> stock_filter it x" by (simp add: stock_filter_def)
    with False Cons show ?thesis by (simp add: adj_def)
  qed
qed

lemma ids_adj_inc [simp]: "map id_p (adj i (inc_quantity d) ps) = map id_p ps"
  by (induction ps) (auto simp: adj_def inc_quantity_def)

lemma adj_inc_comm:
  "adj i (inc_quantity a) (adj j (inc_quantity b) ps) = adj j (inc_quantity b) (adj i (inc_quantity a) ps)"
  by (induction ps) (auto simp: adj_def inc_quantity_def)

lemma adj_inc_cancel: "adj i (inc_quantity q) (adj i (inc_quantity (- q)) ps) = ps"
  by (induction ps) (auto simp: adj_def inc_quantity_def)

lemma rollback_is_adj: "distinct (map id_p ps) \<Longrightarrow> rollback ps done = rollback_adj ps done"
proof (induction "done" arbitrary: ps)
  case Nil
  then show ?case by (simp add: rollback_def rollback_adj_def)
next
  case (Cons u us)
  have d: "distinct (map id_p (adj (id_p u) (inc_quantity (quantity u)) ps))"
    using Cons.prems by simp
  have "rollback ps (u # us) = rollback (adj (id_p u) (inc_quantity (quantity u)) ps) us"
    using Cons.prems by (simp add: rollback_def update_one_id_adj)
  also have "\<dots> = rollback_adj (adj (id_p u) (inc_quantity (quantity u)) ps) us"
    using d by (rule Cons.IH)
  finally show ?case by (simp add: rollback_adj_def)
qed

lemma rollback_adj_comm:
  "rollback_adj (adj j (inc_quantity b) ps) done = adj j (inc_quantity b) (rollback_adj ps done)"
proof (induction "done" arbitrary: ps)
  case Nil
  then show ?case by (simp add: rollback_adj_def)
next
  case (Cons u us)
  have "rollback_adj (adj j (inc_quantity b) ps) (u # us)
        = rollback_adj (adj (id_p u) (inc_quantity (quantity u)) (adj j (inc_quantity b) ps)) us"
    by (simp add: rollback_adj_def)
  also have "\<dots> = rollback_adj (adj j (inc_quantity b) (adj (id_p u) (inc_quantity (quantity u)) ps)) us"
    by (simp add: adj_inc_comm)
  also have "\<dots> = adj j (inc_quantity b) (rollback_adj (adj (id_p u) (inc_quantity (quantity u)) ps) us)"
    by (rule Cons.IH)
  finally show ?case by (simp add: rollback_adj_def)
qed

lemma rollback_adj_snoc:
  "rollback_adj ps (done @ [u]) = adj (id_p u) (inc_quantity (quantity u)) (rollback_adj ps done)"
  by (simp add: rollback_adj_def)

lemma reserve_rollback_adj:
  "distinct (map id_p ps) \<Longrightarrow> reserve ps its done = Inl (it, ps', done')
   \<Longrightarrow> distinct (map id_p ps') \<and> rollback_adj ps' done' = rollback_adj ps done"
proof (induction its arbitrary: ps "done")
  case Nil
  then show ?case by simp
next
  case (Cons item rest)
  show ?case
  proof (cases "list_ex (stock_filter item) ps")
    case False
    with Cons.prems show ?thesis by (simp add: matched_count_def)
  next
    case True
    let ?ps = "adj (id_p item) (inc_quantity (- quantity item)) ps"
    have upd: "update_one (stock_filter item) (inc_quantity (- quantity item)) ps = ?ps"
      using Cons.prems(1) True by (rule update_one_stock_adj)
    have d: "distinct (map id_p ?ps)" using Cons.prems(1) by simp
    have r: "reserve ?ps rest (done @ [item]) = Inl (it, ps', done')"
      using Cons.prems(2) True upd by (simp add: matched_count_def)
    from Cons.IH [OF d r]
    have "distinct (map id_p ps')" and "rollback_adj ps' done' = rollback_adj ?ps (done @ [item])"
      by simp_all
    moreover have "rollback_adj ?ps (done @ [item]) = rollback_adj ps done"
      by (simp add: rollback_adj_snoc rollback_adj_comm adj_inc_cancel)
    ultimately show ?thesis by simp
  qed
qed

lemma reserve_rollback:
  assumes "distinct (map id_p ps)" and "reserve ps its [] = Inl (it, ps', done')"
  shows "rollback ps' done' = ps"
proof -
  from reserve_rollback_adj [OF assms]
  have d: "distinct (map id_p ps')" and e: "rollback_adj ps' done' = rollback_adj ps []" by simp_all
  from d have "rollback ps' done' = rollback_adj ps' done'" by (rule rollback_is_adj)
  with e show ?thesis by (simp add: rollback_adj_def)
qed

lemma reserve_failed_item:
  "reserve ps its done = Inl (it, ps', done')
   \<Longrightarrow> it \<in> set its \<and> \<not> list_ex (stock_filter it) ps'"
  by (induction its arbitrary: ps "done") (auto simp: matched_count_def split: if_splits)

lemma find_update_one_status:
  "find_one (by_order_id oid) os = Some od
   \<Longrightarrow> find_one (by_order_id oid) (update_one (by_order_id oid) (set_status st) os)
       = Some (set_status st od)"
  by (induction os) (auto simp: find_one_def by_order_id_def set_status_def)


section \<open>Replay of the worker\<close>

text \<open>
  C5. If no order has the given \<^verbatim>\<open>order_id\<close>, or the one found is not \<^verbatim>\<open>paid\<close>, the worker
  returns normally (it raises nothing; the value returned is the message "Order not found
  or not paid.") and the store is the one it was given: no stock and no status has
  changed. In particular a second run on an order that the first run completed changes
  nothing.
\<close>

theorem process_order_noop:
  "(find_one (by_order_id oid) (order_history s) = None
      \<or> (\<exists>od. find_one (by_order_id oid) (order_history s) = Some od \<and> status od \<noteq> PAID))
   \<Longrightarrow> process_order oid s = (Inr (''failure'', ''Order not found or not paid.''), s)"
  by (auto simp: process_order_def)

theorem process_order_noop_witness:
  "status_of ''o1'' (db_AB COMPLETED) = Some COMPLETED
   \<and> process_order ''o1'' (db_AB COMPLETED)
       = (Inr (''failure'', ''Order not found or not paid.''), db_AB COMPLETED)
   \<and> process_order ''o1'' (snd (process_order ''o1'' (db_AB COMPLETED)))
       = (Inr (''failure'', ''Order not found or not paid.''), db_AB COMPLETED)"
proof -
  have f: "find_one (by_order_id ''o1'') (order_history (db_AB COMPLETED)) = Some (order_AB COMPLETED)"
    by (simp add: find_one_def by_order_id_def db_AB_def order_AB_def)
  have h: "find_one (by_order_id ''o1'') (order_history (db_AB COMPLETED)) = None
      \<or> (\<exists>od. find_one (by_order_id ''o1'') (order_history (db_AB COMPLETED)) = Some od \<and> status od \<noteq> PAID)"
    using f by (simp add: order_AB_def)
  have r: "process_order ''o1'' (db_AB COMPLETED)
       = (Inr (''failure'', ''Order not found or not paid.''), db_AB COMPLETED)"
    using h by (rule process_order_noop)
  show ?thesis using f r by (simp add: status_of_def order_AB_def)
qed


section \<open>Compensation when stock is short\<close>

lemma valid_AB: "model_validate (order_AB PAID) = None"
  by code_simp

lemma reserve_AB:
  "reserve stock_AB (items (order_AB PAID)) [] =
     Inl (mk_product ''B'' 2 ''8936036021660'' (Decimal 100 (- 1)) 3,
          [mk_product ''A'' 1 ''8850718820634'' (Decimal 100 (- 1)) 5,
           mk_product ''B'' 2 ''8936036021660'' (Decimal 100 (- 1)) 2],
          [mk_product ''A'' 1 ''8850718820634'' (Decimal 100 (- 1)) 5])"
  by (simp add: stock_AB_def order_AB_def mk_product_def matched_count_def stock_filter_def inc_quantity_def)

text \<open>
  C2. The worker runs on an order that is \<^verbatim>\<open>paid\<close> and valid, and the loop over its items
  stops at \<open>item\<close>, whose conditional decrement matched no product (no product has its id
  and at least its quantity in stock). Then the worker returns the failure result that
  names \<open>item\<close>, the order is \<^verbatim>\<open>failed\<close>, and the product collection is the one the
  worker started from: every decrement it had applied is undone. Product ids are unique
  in the collection (\<^verbatim>\<open>ensure_indexes\<close> declares the unique index on \<^verbatim>\<open>id\<close>).
\<close>

theorem process_order_rollback:
  assumes ids: "distinct (map id_p (products s))"
    and found: "find_one (by_order_id oid) (order_history s) = Some od"
    and paid: "status od = PAID"
    and valid: "model_validate od = None"
    and short: "reserve (products s) (items od) [] = Inl (item, ps, done)"
  shows "item \<in> set (items od) \<and> \<not> list_ex (stock_filter item) ps
     \<and> fst (process_order oid s) = Inr (''failure'', ''Insufficient stock for '' @ name item @ ''.'')
     \<and> products (snd (process_order oid s)) = products s
     \<and> carts (snd (process_order oid s)) = carts s
     \<and> status_of oid (snd (process_order oid s)) = Some FAILED"
proof -
  have restored: "rollback ps done = products s"
    using ids short by (rule reserve_rollback)
  have run: "process_order oid s =
      (Inr (''failure'', ''Insufficient stock for '' @ name item @ ''.''),
       s\<lparr>order_history := update_one (by_order_id oid) (set_status FAILED) (order_history s),
         products := rollback ps done\<rparr>)"
    using found paid valid short by (simp add: process_order_def)
  have st: "status_of oid (snd (process_order oid s)) = Some FAILED"
    using find_update_one_status [OF found, of FAILED] run
    by (simp add: status_of_def set_status_def)
  from reserve_failed_item [OF short] run restored st show ?thesis by simp
qed

theorem process_order_rollback_witness:
  "fst (process_order ''o1'' (db_AB PAID)) = Inr (''failure'', ''Insufficient stock for B.'')
   \<and> products (snd (process_order ''o1'' (db_AB PAID))) = stock_AB
   \<and> status_of ''o1'' (snd (process_order ''o1'' (db_AB PAID))) = Some FAILED"
proof -
  have ids: "distinct (map id_p (products (db_AB PAID)))"
    by (simp add: db_AB_def stock_AB_def mk_product_def)
  have found: "find_one (by_order_id ''o1'') (order_history (db_AB PAID)) = Some (order_AB PAID)"
    by (simp add: find_one_def by_order_id_def db_AB_def order_AB_def)
  have paid: "status (order_AB PAID) = PAID" by (simp add: order_AB_def)
  have short: "reserve (products (db_AB PAID)) (items (order_AB PAID)) [] =
     Inl (mk_product ''B'' 2 ''8936036021660'' (Decimal 100 (- 1)) 3,
          [mk_product ''A'' 1 ''8850718820634'' (Decimal 100 (- 1)) 5,
           mk_product ''B'' 2 ''8936036021660'' (Decimal 100 (- 1)) 2],
          [mk_product ''A'' 1 ''8850718820634'' (Decimal 100 (- 1)) 5])"
    using reserve_AB by (simp add: db_AB_def)
  from process_order_rollback [OF ids found paid valid_AB short]
  show ?thesis by (simp add: db_AB_def mk_product_def)
qed


section \<open>Stock is never negative\<close>

lemma nonneg_update_stock:
  "list_all (\<lambda>p. 0 \<le> quantity p) ps
   \<Longrightarrow> list_all (\<lambda>p. 0 \<le> quantity p) (update_one (stock_filter item) (inc_quantity (- quantity item)) ps)"
  by (induction ps) (auto simp: stock_filter_def inc_quantity_def)

lemma nonneg_update_inc:
  "0 \<le> q \<Longrightarrow> list_all (\<lambda>p. 0 \<le> quantity p) ps
   \<Longrightarrow> list_all (\<lambda>p. 0 \<le> quantity p) (update_one P (inc_quantity q) ps)"
  by (induction ps) (auto simp: inc_quantity_def)

lemma valid_items_nonneg: "model_validate od = None \<Longrightarrow> items_nonneg (items od)"
  by (auto simp: model_validate_def payload_fields_ok_def items_nonneg_def product_fields_ok_def
      list_all_iff split: if_splits)

lemma worker_step_inv:
  "stock_nonneg s \<Longrightarrow> worker_ok w \<Longrightarrow> worker_step w s = (w', s')
   \<Longrightarrow> stock_nonneg s' \<and> worker_ok w'"
proof (induction w s rule: worker_step.induct)
  case (1 oid s)
  then show ?case
    by (auto dest: valid_items_nonneg simp: items_nonneg_def split: option.splits if_splits)
next
  case (2 od "done" s)
  then show ?case by (auto simp: stock_nonneg_def)
next
  case (3 od item rest "done" s)
  then show ?case
    by (auto simp: stock_nonneg_def items_nonneg_def nonneg_update_stock split: if_splits)
next
  case (4 od item "done" s)
  then show ?case by (auto simp: stock_nonneg_def)
next
  case (5 item s)
  then show ?case by auto
next
  case (6 item u us s)
  then show ?case by (auto simp: stock_nonneg_def items_nonneg_def nonneg_update_inc)
next
  case (7 r s)
  then show ?case by auto
qed

lemma cart_operation_products: "products (snd (cart_operation uid r s)) = products s"
  by (auto simp: cart_operation_def cart_execute_def Let_def split: option.splits sum.splits if_splits)

lemma checkout_products:
  "products (fst (snd (initiate_checkout_and_generate_qr cfg provider render oid now cu cd s))) = products s"
  by (auto simp: initiate_checkout_and_generate_qr_def Let_def split: option.splits)

lemma sched_step_inv: "sys_inv c \<Longrightarrow> sys_inv (sched_step i c)"
proof (cases c)
  case (Pair ws s)
  assume inv: "sys_inv c"
  show ?thesis
  proof (cases "i < length ws")
    case False
    with Pair inv show ?thesis by (simp add: sched_step_def)
  next
    case True
    obtain w' s' where st: "worker_step (ws ! i) s = (w', s')" by (cases "worker_step (ws ! i) s")
    from inv Pair True have "worker_ok (ws ! i)" and "stock_nonneg s"
      by (auto simp: sys_inv_def list_all_length)
    with st have "stock_nonneg s'" and "worker_ok w'"
      using worker_step_inv by blast+
    moreover from inv Pair have "list_all worker_ok ws" by (simp add: sys_inv_def)
    ultimately have "list_all worker_ok (ws[i := w'])" and "stock_nonneg s'"
      by (auto simp: list_all_iff dest: set_update_subset_insert [THEN subsetD])
    with Pair True st show ?thesis by (simp add: sched_step_def sys_inv_def)
  qed
qed

lemma occur_inv: "sys_inv c \<Longrightarrow> sys_inv (occur e c)"
proof (cases e)
  case (Step i)
  assume "sys_inv c"
  with Step show ?thesis by (simp add: sched_step_inv)
next
  case (Request r)
  assume inv: "sys_inv c"
  obtain ws s where c: "c = (ws, s)" by (cases c)
  show ?thesis
  proof (cases r)
    case (Cart uid cr)
    with Request c inv show ?thesis
      by (simp add: sys_inv_def stock_nonneg_def cart_operation_products)
  next
    case (Checkout cfg provider render oid now cu cd)
    with Request c inv show ?thesis
      by (simp add: sys_inv_def stock_nonneg_def checkout_products)
  next
    case (Process oid)
    with Request c inv show ?thesis by (simp add: sys_inv_def)
  qed
qed

lemma occur_all_inv: "sys_inv c \<Longrightarrow> sys_inv (occur_all es c)"
  unfolding occur_all_def by (induction es arbitrary: c) (simp_all add: occur_inv)

text \<open>
  C1. Start from a store in which no product has a negative quantity and let any sequence
  of events happen: cart operations, checkouts, workers being started, and single store
  calls of the running workers in any interleaving. After every such sequence (so at
  every point in between, too) no product has a negative quantity. The worker's decrement
  only matches a product holding at least the item's quantity; cart operations and
  checkouts leave the product collection as it is.
\<close>

theorem stock_never_negative:
  "stock_nonneg s \<Longrightarrow>
     stock_nonneg (snd (occur_all es ([], s)))
     \<and> products (serve (Cart uid r) s) = products s
     \<and> products (serve (Checkout cfg provider render oid now current_user cart_data) s) = products s"
proof -
  assume "stock_nonneg s"
  then have "sys_inv ([], s)" by (simp add: sys_inv_def)
  then have "sys_inv (occur_all es ([], s))" by (rule occur_all_inv)
  then show ?thesis by (simp add: sys_inv_def cart_operation_products checkout_products)
qed


theorem stock_never_negative_witness:
  "stock_nonneg db_one
   \<and> stock_nonneg (snd (occur_all [Request (Process ''o1''), Request (Process ''o1''),
                                    Step 0, Step 1, Step 0, Step 1] ([], db_one)))
   \<and> map quantity (products (snd (occur_all [Request (Process ''o1''), Request (Process ''o1''),
                                    Step 0, Step 1, Step 0, Step 1] ([], db_one)))) = [0]"
proof -
  have h: "stock_nonneg db_one" by code_simp
  have e: "map quantity (products (snd (occur_all [Request (Process ''o1''), Request (Process ''o1''),
                                    Step 0, Step 1, Step 0, Step 1] ([], db_one)))) = [0]"
    by code_simp
  from stock_never_negative [OF h] h e show ?thesis by blast
qed


section \<open>The order life cycle\<close>















section \<open>The cart\<close>


lemma update_one_none: "find_one P xs = None \<Longrightarrow> update_one P f xs = xs"
  by (induction xs) (auto simp: find_one_def split: if_splits)

lemma find_one_Some_set: "find_one P xs = Some x \<Longrightarrow> x \<in> set xs \<and> P x"
  by (induction xs) (auto simp: find_one_def split: if_splits)



lemma barcodes_inc [simp]:
  "map line_barcode (update_one P (\<lambda>l. l\<lparr>line_quantity := line_quantity l + d\<rparr>) ls) = map line_barcode ls"
  by (induction ls) auto













section \<open>The item count in the result\<close>

lemma cart_total_reported:
  assumes p: "find_one (\<lambda>p. barcode p = Some (req_barcode r)) (products s) = Some product"
    and res: "fst (cart_operation uid r s) = Inr resp"
  shows "cart_total_items resp = total_items (user_cart_lines uid (snd (cart_operation uid r s)))"
proof -
  let ?ci = "find_one (by_line (req_barcode r)) (user_cart_lines uid s)"
  let ?cur = "case ?ci of None \<Rightarrow> 0 | Some l \<Rightarrow> line_quantity l"
  show ?thesis
  proof (cases "action r = ''add'' \<and> quantity product < req_quantity r")
    case True
    with p have "cart_operation uid r s =
        (Inr \<lparr>success = False, message = InsufficientStock (quantity product) (req_quantity r),
              cart_total_items = total_items (user_cart_lines uid s)\<rparr>, s)"
      by (simp add: cart_operation_def Let_def)
    with res show ?thesis by auto
  next
    case no_add: False
    show ?thesis
    proof (cases "action r \<noteq> ''add'' \<and> action r = ''remove'' \<and> ?cur < req_quantity r")
      case True
      with p no_add have "cart_operation uid r s =
          (Inr \<lparr>success = False, message = NotEnoughInCart ?cur (req_quantity r),
                cart_total_items = total_items (user_cart_lines uid s)\<rparr>, s)"
        by (simp add: cart_operation_def Let_def)
      with res show ?thesis by auto
    next
      case no_rem: False
      show ?thesis
      proof (cases "cart_execute uid r product ?ci s")
        case (Inl err)
        with p no_add no_rem have "fst (cart_operation uid r s) = Inl err"
          by (simp add: cart_operation_def Let_def)
        with res show ?thesis by simp
      next
        case (Inr s')
        show ?thesis
        proof (cases "find_one (by_user uid) (carts s')")
          case None
          with p no_add no_rem Inr have "fst (cart_operation uid r s) = Inl InternalServerError500"
            by (simp add: cart_operation_def Let_def)
          with res show ?thesis by simp
        next
          case (Some updated_cart)
          with p no_add no_rem Inr have "cart_operation uid r s =
              (Inr \<lparr>success = True,
                    message = CartUpdated (action r) (req_quantity r) (name product),
                    cart_total_items = total_items (cart_items updated_cart)\<rparr>, s')"
            by (simp add: cart_operation_def Let_def)
          with res Some show ?thesis by (auto simp: user_cart_lines_def)
        qed
      qed
    qed
  qed
qed

text \<open>
  C9. The branch for an unknown barcode answers before the cart is read and puts the
  constant 0 in \<^verbatim>\<open>cart_total_items\<close>: with three items in the cart of the user, the result
  of an operation on a barcode that no product has reports 0. Every other result carries
  the sum of the quantities of the user's cart at that moment (\<open>cart_total_reported\<close>).
\<close>

theorem unknown_barcode_reports_zero:
  "fst (cart_operation ''u1'' \<lparr>req_barcode = ''0000000000000'', action = ''add'', req_quantity = 1\<rparr> db_cart)
     = Inr \<lparr>success = False, message = UnknownBarcode ''0000000000000'', cart_total_items = 0\<rparr>
   \<and> total_items (user_cart_lines ''u1''
        (snd (cart_operation ''u1'' \<lparr>req_barcode = ''0000000000000'', action = ''add'', req_quantity = 1\<rparr>
           db_cart))) = 3"
  by code_simp


section \<open>Totals at checkout\<close>

lemma dec_fix_fits: "fits d \<Longrightarrow> dec_fix d = d"
  by (simp add: fits_def dec_fix_def Let_def)

lemma mul_exact_val: "dec_val (mul_exact x y) = dec_val x * dec_val y"
proof -
  have "(10::rat) powi (expo x + expo y) = 10 powi expo x * 10 powi expo y"
    by (rule power_int_add) simp
  then show ?thesis by (simp add: mul_exact_def dec_val_powi)
qed

lemma dec_mul_fix: "dec_mul x y = dec_fix (mul_exact x y)"
  by (simp add: dec_mul_def mul_exact_def)

lemma dec_of_int_val: "dec_val (dec_of_int n) = of_int n"
  by (simp add: dec_of_int_def dec_val_def)

lemma foldl_exact:
  "sum_fits acc ds
   \<Longrightarrow> foldl dec_add acc ds = foldl add_exact acc ds
       \<and> dec_val (foldl add_exact acc ds) = dec_val acc + sum_list (map dec_val ds)"
proof (induction ds arbitrary: acc)
  case Nil
  then show ?case by simp
next
  case (Cons d ds)
  then have f: "fits (add_exact acc d)" and r: "sum_fits (add_exact acc d) ds" by simp_all
  from f have "dec_add acc d = add_exact acc d" by (simp add: dec_add_fix dec_fix_fits)
  with Cons.IH [OF r] show ?case by (simp add: add_exact_val)
qed

lemma line_totals_exact:
  "list_all fits (line_totals c)
   \<Longrightarrow> map (\<lambda>item. dec_mul (price item) (dec_of_int (quantity item))) (items c) = line_totals c"
  by (simp add: line_totals_def list_all_iff dec_mul_fix dec_fix_fits)

lemma line_totals_val:
  "sum_list (map dec_val (line_totals c))
   = (\<Sum>item\<leftarrow>items c. dec_val (price item) * of_int (quantity item))"
  by (simp add: line_totals_def comp_def mul_exact_val dec_of_int_val)

lemma recomputation_exact:
  assumes "no_rounding c"
  shows "dec_val (calculated_subtotal c) = (\<Sum>item\<leftarrow>items c. dec_val (price item) * of_int (quantity item))"
    and "dec_val (calculated_total c) = dec_val (calculated_subtotal c) + dec_val (shipping_cost c)"
proof -
  from assms have a: "list_all fits (line_totals c)"
    and b: "sum_fits (dec_of_int 0) (line_totals c)"
    and t: "fits (add_exact (foldl add_exact (dec_of_int 0) (line_totals c)) (shipping_cost c))"
    by (simp_all add: no_rounding_def)
  from foldl_exact [OF b]
  have e: "foldl dec_add (dec_of_int 0) (line_totals c) = foldl add_exact (dec_of_int 0) (line_totals c)"
    and v: "dec_val (foldl add_exact (dec_of_int 0) (line_totals c))
            = dec_val (dec_of_int 0) + sum_list (map dec_val (line_totals c))" by simp_all
  have sub: "calculated_subtotal c = foldl add_exact (dec_of_int 0) (line_totals c)"
    by (simp add: calculated_subtotal_def dec_sum_def line_totals_exact [OF a] e)
  show "dec_val (calculated_subtotal c)
        = (\<Sum>item\<leftarrow>items c. dec_val (price item) * of_int (quantity item))"
    by (simp add: sub v line_totals_val dec_of_int_val)
  have "calculated_total c = add_exact (calculated_subtotal c) (shipping_cost c)"
    using t by (simp add: calculated_total_def dec_add_fix sub dec_fix_fits)
  then show "dec_val (calculated_total c) = dec_val (calculated_subtotal c) + dec_val (shipping_cost c)"
    by (simp add: add_exact_val)
qed

lemma example_no_rounding: "no_rounding (payload_10x2 d)"
  by code_simp

lemma validate_rejects:
  assumes "1 / 100 \<le> \<bar>dec_val (subtotal c) - dec_val (calculated_subtotal c)\<bar>
           \<or> 1 / 100 \<le> \<bar>dec_val (total_cost c) - dec_val (calculated_total c)\<bar>"
  shows "model_validate c \<noteq> None"
proof (cases "payload_fields_ok c")
  case False
  then show ?thesis by (simp add: model_validate_def)
next
  case True
  from assms show ?thesis
  proof
    assume "1 / 100 \<le> \<bar>dec_val (subtotal c) - dec_val (calculated_subtotal c)\<bar>"
    then have "\<not> dec_less (dec_abs (dec_sub (subtotal c) (calculated_subtotal c))) tolerance"
      by (rule tolerance_test)
    then show ?thesis by (simp add: model_validate_def validate_and_recalculate_totals_def)
  next
    assume "1 / 100 \<le> \<bar>dec_val (total_cost c) - dec_val (calculated_total c)\<bar>"
    then have "\<not> dec_less (dec_abs (dec_sub (total_cost c) (calculated_total c))) tolerance"
      by (rule tolerance_test)
    then show ?thesis by (simp add: model_validate_def validate_and_recalculate_totals_def)
  qed
qed

lemma example_subtotal: "calculated_subtotal (payload_10x2 d) = Decimal 200 (- 1)"
  by code_simp

lemma example_total: "calculated_total (payload_10x2 d) = Decimal 250 (- 1)"
  by code_simp

lemma example_rejected: "model_validate (payload_10x2 (Decimal 1999 (- 2))) = Some SubtotalMismatch"
  by code_simp

lemma example_accepted: "model_validate (payload_10x2 (Decimal 200 (- 1))) = None"
  by code_simp

lemma example_vals: "dec_val (Decimal 200 (- 1)) = 20" "dec_val (Decimal 250 (- 1)) = 25"
  "dec_val (Decimal 1999 (- 2)) = 1999 / 100"
  by (simp_all add: dec_val_def)

text \<open>
  C3. The validator recomputes the subtotal as the decimal sum of price times quantity
  over the declared items and the total as that subtotal plus the shipping cost; as long
  as no product and no partial sum needs more than 28 digits these are the exact sums.
  Whenever the declared subtotal or the declared total is 0.01 or more away from the
  recomputed value, the checkout of an authorised caller ends with the validation error
  and the store as it was: no order is created and the provider is not called. For one item at 10.00
  with quantity 2 and shipping 5.00 the recomputed values are 20.0 and 25.0; the declared
  subtotal 20.0 is accepted and the declared subtotal 19.99 is rejected.
\<close>

theorem checkout_total_integrity:
  "(role_required [''shop_client'', ''guest''] current_user
      \<and> (1 / 100 \<le> \<bar>dec_val (subtotal cart_data) - dec_val (calculated_subtotal cart_data)\<bar>
           \<or> 1 / 100 \<le> \<bar>dec_val (total_cost cart_data) - dec_val (calculated_total cart_data)\<bar>)
    \<longrightarrow> (\<exists>err. initiate_checkout_and_generate_qr cfg provider render oid now current_user cart_data s
                 = (Inl (Unprocessable422 err), s, None)))
   \<and> (no_rounding cart_data
      \<longrightarrow> dec_val (calculated_subtotal cart_data)
            = (\<Sum>item\<leftarrow>items cart_data. dec_val (price item) * of_int (quantity item))
          \<and> dec_val (calculated_total cart_data)
            = dec_val (calculated_subtotal cart_data) + dec_val (shipping_cost cart_data))
   \<and> calculated_subtotal (payload_10x2 declared) = Decimal 200 (- 1)
   \<and> dec_val (calculated_subtotal (payload_10x2 declared)) = 20
   \<and> calculated_total (payload_10x2 declared) = Decimal 250 (- 1)
   \<and> dec_val (calculated_total (payload_10x2 declared)) = 25
   \<and> model_validate (payload_10x2 (Decimal 200 (- 1))) = None
   \<and> model_validate (payload_10x2 (Decimal 1999 (- 2))) = Some SubtotalMismatch"
proof -
  have "\<exists>err. initiate_checkout_and_generate_qr cfg provider render oid now current_user cart_data s
                 = (Inl (Unprocessable422 err), s, None)"
    if r: "role_required [''shop_client'', ''guest''] current_user"
      and t: "1 / 100 \<le> \<bar>dec_val (subtotal cart_data) - dec_val (calculated_subtotal cart_data)\<bar>
           \<or> 1 / 100 \<le> \<bar>dec_val (total_cost cart_data) - dec_val (calculated_total cart_data)\<bar>"
  proof -
    from t have "model_validate cart_data \<noteq> None" by (rule validate_rejects)
    then obtain err where "model_validate cart_data = Some err" by blast
    with r have "initiate_checkout_and_generate_qr cfg provider render oid now current_user cart_data s
                 = (Inl (Unprocessable422 err), s, None)"
      by (simp add: initiate_checkout_and_generate_qr_def)
    then show ?thesis ..
  qed
  moreover have "dec_val (calculated_subtotal cart_data)
            = (\<Sum>item\<leftarrow>items cart_data. dec_val (price item) * of_int (quantity item))
          \<and> dec_val (calculated_total cart_data)
            = dec_val (calculated_subtotal cart_data) + dec_val (shipping_cost cart_data)"
    if "no_rounding cart_data"
    using recomputation_exact [OF that] by simp
  ultimately show ?thesis
    by (simp only: example_subtotal example_total example_rejected example_accepted example_vals)
       blast
qed

theorem checkout_total_integrity_witness:
  "initiate_checkout_and_generate_qr cfg0 (\<lambda>r. RequestError) id ''o2'' 0 client_u1
       (payload_10x2 (Decimal 1999 (- 2))) db_cart
     = (Inl (Unprocessable422 SubtotalMismatch), db_cart, None)
   \<and> no_rounding (payload_10x2 (Decimal 1999 (- 2)))
   \<and> dec_val (calculated_subtotal (payload_10x2 (Decimal 1999 (- 2))))
       = (\<Sum>item\<leftarrow>items (payload_10x2 (Decimal 1999 (- 2))).
            dec_val (price item) * of_int (quantity item))"
proof -
  have n: "no_rounding (payload_10x2 (Decimal 1999 (- 2)))" by (rule example_no_rounding)
  have r: "role_required [''shop_client'', ''guest''] client_u1"
    by (simp add: role_required_def client_u1_def)
  have "dec_val (subtotal (payload_10x2 (Decimal 1999 (- 2)))) = 1999 / 100"
    by (simp add: payload_10x2_def dec_val_def)
  moreover have "dec_val (calculated_subtotal (payload_10x2 (Decimal 1999 (- 2)))) = 20"
    by (simp add: example_subtotal dec_val_def)
  ultimately have t: "1 / 100 \<le> \<bar>dec_val (subtotal (payload_10x2 (Decimal 1999 (- 2))))
        - dec_val (calculated_subtotal (payload_10x2 (Decimal 1999 (- 2))))\<bar>"
    by simp
  from checkout_total_integrity [of client_u1 "payload_10x2 (Decimal 1999 (- 2))" cfg0
      "\<lambda>r. RequestError" id "''o2''" 0 db_cart] r t
  obtain err where e: "initiate_checkout_and_generate_qr cfg0 (\<lambda>r. RequestError) id ''o2'' 0 client_u1
       (payload_10x2 (Decimal 1999 (- 2))) db_cart = (Inl (Unprocessable422 err), db_cart, None)"
    by blast
  moreover have "model_validate (payload_10x2 (Decimal 1999 (- 2))) = Some SubtotalMismatch"
    by (rule example_rejected)
  ultimately have "err = SubtotalMismatch"
    using r by (simp add: initiate_checkout_and_generate_qr_def)
  moreover from checkout_total_integrity [of client_u1 "payload_10x2 (Decimal 1999 (- 2))"] n
  have "dec_val (calculated_subtotal (payload_10x2 (Decimal 1999 (- 2))))
       = (\<Sum>item\<leftarrow>items (payload_10x2 (Decimal 1999 (- 2))).
            dec_val (price item) * of_int (quantity item))"
    by blast
  ultimately show ?thesis using e n by simp
qed


section \<open>The amount sent to the provider\<close>







section \<open>Failures of the provider call\<close>

lemma checkout_persists:
  assumes "role_required [''shop_client'', ''guest''] current_user"
    and "model_validate cart_data = None" and "items cart_data \<noteq> []"
  shows "initiate_checkout_and_generate_qr cfg provider render oid now current_user cart_data s
     = (provider_result render oid
          (provider (vietqr_request_data cfg (pending_order cart_data oid (identity current_user) now))),
        s\<lparr>order_history := order_history s @ [pending_order cart_data oid (identity current_user) now]\<rparr>,
        Some (vietqr_request_data cfg (pending_order cart_data oid (identity current_user) now)))"
  using assms by (simp add: initiate_checkout_and_generate_qr_def Let_def)

lemma provider_failures_503:
  "provider_result render oid RequestError
     = Inl (ServiceUnavailable503 ''Could not connect to the payment QR service.'')"
  "code r \<noteq> ''00'' \<or> data r = None
   \<Longrightarrow> provider_result render oid (Reply r)
       = Inl (ServiceUnavailable503 (''Failed to generate QR code: '' @ desc r))"
  by (auto simp: provider_result_def split: option.splits)

text \<open>
  C7. The pending order is inserted before the provider is called and no path removes it
  (\<open>checkout_persists\<close>); a connection failure, a timeout or an error code in the
  provider's answer gives status 503 (\<open>provider_failures_503\<close>). An answer with an HTTP
  error status does not: \<^verbatim>\<open>raise_for_status\<close> raises \<^verbatim>\<open>httpx.HTTPStatusError\<close>, the
  handler catches \<^verbatim>\<open>httpx.RequestError\<close> only, and the caller gets status 500 while the
  pending order stays in the store.
\<close>

theorem provider_http_error_gives_500:
  "initiate_checkout_and_generate_qr cfg0 (\<lambda>r. HTTPStatusError 500) id ''o2'' 0 client_u1
       (payload_10x2 (Decimal 200 (- 1))) db_cart
     = (Inl InternalServerError500,
        db_cart\<lparr>order_history := [pending_order (payload_10x2 (Decimal 200 (- 1))) ''o2'' ''u1'' 0]\<rparr>,
        Some (vietqr_request_data cfg0 (pending_order (payload_10x2 (Decimal 200 (- 1))) ''o2'' ''u1'' 0)))"
  by (simp add: initiate_checkout_and_generate_qr_def example_accepted role_required_def client_u1_def
      Let_def provider_result_def db_cart_def) (simp add: payload_10x2_def)


section \<open>Payment confirmation against the specification\<close>

lemma find_update_pending:
  "find_one (by_order_id oid) os = Some od \<Longrightarrow> status od = PENDING
   \<Longrightarrow> find_one (by_order_id oid)
         (update_one (\<lambda>d. by_order_id oid d \<and> status d = PENDING) (set_status st) os)
       = Some (set_status st od)"
  by (induction os) (auto simp: find_one_def by_order_id_def set_status_def split: if_splits)

text \<open>
  C6. For the handler as section 4.3 of the specification describes it: a notification
  whose signature does not verify is rejected and changes nothing; a verified SUCCESS for
  a pending order with the right amount sets that order to paid, leaves products and carts
  alone and appends the \<^verbatim>\<open>order_id\<close> to the work queue; an unknown \<^verbatim>\<open>order_id\<close>, a wrong
  amount or an order that is not pending is rejected and changes nothing.
\<close>

theorem payment_confirmation_cases:
  "(\<not> verify payload \<longrightarrow> payment_confirmation verify payload (s, queue) = (Rejected, s, queue))
   \<and> (verify payload \<and> state payload = SUCCESS
        \<and> find_one (by_order_id (referenceId payload)) (order_history s) = Some od
        \<and> wh_amount payload = dec_int (total_cost od) \<and> status od = PENDING
      \<longrightarrow> fst (payment_confirmation verify payload (s, queue)) = Accepted
          \<and> status_of (referenceId payload) (fst (snd (payment_confirmation verify payload (s, queue))))
              = Some PAID
          \<and> products (fst (snd (payment_confirmation verify payload (s, queue)))) = products s
          \<and> carts (fst (snd (payment_confirmation verify payload (s, queue)))) = carts s
          \<and> snd (snd (payment_confirmation verify payload (s, queue))) = queue @ [referenceId payload])
   \<and> (find_one (by_order_id (referenceId payload)) (order_history s) = None
        \<or> (find_one (by_order_id (referenceId payload)) (order_history s) = Some od
            \<and> (wh_amount payload \<noteq> dec_int (total_cost od) \<or> status od \<noteq> PENDING))
      \<longrightarrow> payment_confirmation verify payload (s, queue) = (Rejected, s, queue))"
proof (intro conjI impI)
  assume "\<not> verify payload"
  then show "payment_confirmation verify payload (s, queue) = (Rejected, s, queue)"
    by (simp add: payment_confirmation_def)
next
  assume a: "verify payload \<and> state payload = SUCCESS
        \<and> find_one (by_order_id (referenceId payload)) (order_history s) = Some od
        \<and> wh_amount payload = dec_int (total_cost od) \<and> status od = PENDING"
  then have run: "payment_confirmation verify payload (s, queue) =
      (Accepted,
       s\<lparr>order_history :=
            update_one (\<lambda>d. by_order_id (referenceId payload) d \<and> status d = PENDING)
              (set_status PAID) (order_history s)\<rparr>,
       queue @ [referenceId payload])"
    by (simp add: payment_confirmation_def)
  from a have "find_one (by_order_id (referenceId payload))
         (update_one (\<lambda>d. by_order_id (referenceId payload) d \<and> status d = PENDING)
            (set_status PAID) (order_history s))
       = Some (set_status PAID od)"
    by (intro find_update_pending) simp_all
  then have st: "status_of (referenceId payload)
         (fst (snd (payment_confirmation verify payload (s, queue)))) = Some PAID"
    by (simp add: run status_of_def set_status_def)
  show "fst (payment_confirmation verify payload (s, queue)) = Accepted" by (simp add: run)
  show "status_of (referenceId payload) (fst (snd (payment_confirmation verify payload (s, queue))))
              = Some PAID" by (rule st)
  show "products (fst (snd (payment_confirmation verify payload (s, queue)))) = products s"
    by (simp add: run)
  show "carts (fst (snd (payment_confirmation verify payload (s, queue)))) = carts s"
    by (simp add: run)
  show "snd (snd (payment_confirmation verify payload (s, queue))) = queue @ [referenceId payload]"
    by (simp add: run)
next
  assume "find_one (by_order_id (referenceId payload)) (order_history s) = None
        \<or> (find_one (by_order_id (referenceId payload)) (order_history s) = Some od
            \<and> (wh_amount payload \<noteq> dec_int (total_cost od) \<or> status od \<noteq> PENDING))"
  then show "payment_confirmation verify payload (s, queue) = (Rejected, s, queue)"
    by (auto simp: payment_confirmation_def)
qed

theorem payment_confirmation_cases_witness:
  "payment_confirmation verify0 (webhook_o1 SUCCESS 85 ''forged'') (db_AB PENDING, [])
     = (Rejected, db_AB PENDING, [])
   \<and> status_of ''o1'' (fst (snd (payment_confirmation verify0 (webhook_o1 SUCCESS 85 ''valid'')
                                    (db_AB PENDING, [])))) = Some PAID
   \<and> snd (snd (payment_confirmation verify0 (webhook_o1 SUCCESS 85 ''valid'') (db_AB PENDING, [])))
       = [''o1'']
   \<and> payment_confirmation verify0 (webhook_o1 SUCCESS 84 ''valid'') (db_AB PENDING, [])
       = (Rejected, db_AB PENDING, [])
   \<and> payment_confirmation verify0 (webhook_o1 SUCCESS 85 ''valid'') (db_AB COMPLETED, [])
       = (Rejected, db_AB COMPLETED, [])"
proof -
  have f: "\<And>st. find_one (by_order_id ''o1'') (order_history (db_AB st)) = Some (order_AB st)"
    by (simp add: find_one_def by_order_id_def db_AB_def order_AB_def)
  have amt: "\<And>st. dec_int (total_cost (order_AB st)) = 85"
    by (simp add: order_AB_def dec_int_def)
  have st: "\<And>st. status (order_AB st) = st" by (simp add: order_AB_def)
  have r: "\<And>st a sg. referenceId (webhook_o1 st a sg) = ''o1''" by (simp add: webhook_o1_def)
  have a: "\<And>st a sg. wh_amount (webhook_o1 st a sg) = a" by (simp add: webhook_o1_def)
  have t: "\<And>st a sg. state (webhook_o1 st a sg) = st" by (simp add: webhook_o1_def)
  have v: "verify0 (webhook_o1 SUCCESS 85 ''valid'')" "\<not> verify0 (webhook_o1 SUCCESS 85 ''forged'')"
    by (simp_all add: verify0_def webhook_o1_def)
  note c = payment_confirmation_cases
  from c [of verify0 "webhook_o1 SUCCESS 85 ''forged''" "db_AB PENDING" "[]"] v
  have 1: "payment_confirmation verify0 (webhook_o1 SUCCESS 85 ''forged'') (db_AB PENDING, [])
     = (Rejected, db_AB PENDING, [])" by blast
  from c [of verify0 "webhook_o1 SUCCESS 85 ''valid''" "db_AB PENDING" "[]" "order_AB PENDING"]
    v f amt st r a t
  have 2: "status_of ''o1'' (fst (snd (payment_confirmation verify0 (webhook_o1 SUCCESS 85 ''valid'')
                                    (db_AB PENDING, [])))) = Some PAID
     \<and> snd (snd (payment_confirmation verify0 (webhook_o1 SUCCESS 85 ''valid'') (db_AB PENDING, [])))
       = [''o1'']" by simp
  from c [of verify0 "webhook_o1 SUCCESS 84 ''valid''" "db_AB PENDING" "[]" "order_AB PENDING"]
    f amt st r a t
  have 3: "payment_confirmation verify0 (webhook_o1 SUCCESS 84 ''valid'') (db_AB PENDING, [])
       = (Rejected, db_AB PENDING, [])" by simp
  from c [of verify0 "webhook_o1 SUCCESS 85 ''valid''" "db_AB COMPLETED" "[]" "order_AB COMPLETED"]
    f amt st r a t
  have 4: "payment_confirmation verify0 (webhook_o1 SUCCESS 85 ''valid'') (db_AB COMPLETED, [])
       = (Rejected, db_AB COMPLETED, [])" by simp
  from 1 2 3 4 show ?thesis by simp
qed


section \<open>The stepwise worker carries out the task\<close>

text \<open>
  Left alone, a worker that takes its store calls one after the other ends with the
  result and the store of \<^verbatim>\<open>process_order\<close>.
\<close>

lemma worker_steps_add:
  "worker_steps (m + n) w s = (case worker_steps m w s of (w', s') \<Rightarrow> worker_steps n w' s')"
  by (induction m arbitrary: w s) (auto split: prod.splits)

lemma rollback_steps:
  "worker_steps (Suc (length us)) (W_Rollback item us) s
   = (W_Done (Inr (''failure'', ''Insufficient stock for '' @ name item @ ''.'')),
      s\<lparr>products := rollback (products s) us\<rparr>)"
proof (induction us arbitrary: s)
  case Nil
  then show ?case by (simp add: rollback_def)
next
  case (Cons u us)
  have "worker_steps (Suc (length (u # us))) (W_Rollback item (u # us)) s
      = worker_steps (Suc (length us)) (W_Rollback item us)
          (s\<lparr>products := update_one (id_filter u) (inc_quantity (quantity u)) (products s)\<rparr>)"
    by simp
  also have "\<dots> = (W_Done (Inr (''failure'', ''Insufficient stock for '' @ name item @ ''.'')),
      s\<lparr>products := rollback (update_one (id_filter u) (inc_quantity (quantity u)) (products s)) us\<rparr>)"
    by (simp only: Cons.IH) simp
  finally show ?case by (simp add: rollback_def)
qed

lemma loop_steps:
  "\<exists>n. worker_steps n (W_Loop od its done) s
        = (W_Done (fst (loop_result od its done s)), snd (loop_result od its done s))"
proof (induction its arbitrary: s "done")
  case Nil
  have "worker_steps 1 (W_Loop od [] done) s
        = (W_Done (fst (loop_result od [] done s)), snd (loop_result od [] done s))"
    by (simp add: loop_result_def)
  then show ?case by blast
next
  case (Cons item rest)
  show ?case
  proof (cases "matched_count (stock_filter item) (products s) = 0")
    case True
    let ?s1 = "s\<lparr>order_history :=
                update_one (by_order_id (order_id od)) (set_status FAILED) (order_history s)\<rparr>"
    have a: "worker_steps 2 (W_Loop od (item # rest) done) s = (W_Rollback item done, ?s1)"
      using True by (simp add: numeral_2_eq_2)
    have b: "worker_steps (Suc (length done)) (W_Rollback item done) ?s1
      = (W_Done (Inr (''failure'', ''Insufficient stock for '' @ name item @ ''.'')),
         ?s1\<lparr>products := rollback (products ?s1) done\<rparr>)"
      by (rule rollback_steps)
    have "worker_steps (2 + Suc (length done)) (W_Loop od (item # rest) done) s
      = (W_Done (Inr (''failure'', ''Insufficient stock for '' @ name item @ ''.'')),
         ?s1\<lparr>products := rollback (products ?s1) done\<rparr>)"
      by (simp only: worker_steps_add a b split_conv)
    moreover have "loop_result od (item # rest) done s
      = (Inr (''failure'', ''Insufficient stock for '' @ name item @ ''.''),
         ?s1\<lparr>products := rollback (products ?s1) done\<rparr>)"
      using True by (simp add: loop_result_def)
    ultimately have "worker_steps (2 + Suc (length done)) (W_Loop od (item # rest) done) s
        = (W_Done (fst (loop_result od (item # rest) done s)), snd (loop_result od (item # rest) done s))"
      by simp
    then show ?thesis by blast
  next
    case False
    let ?s1 = "s\<lparr>products :=
                 update_one (stock_filter item) (inc_quantity (- quantity item)) (products s)\<rparr>"
    from Cons.IH [of "done @ [item]" ?s1] obtain n where
      n: "worker_steps n (W_Loop od rest (done @ [item])) ?s1
          = (W_Done (fst (loop_result od rest (done @ [item]) ?s1)),
             snd (loop_result od rest (done @ [item]) ?s1))" by blast
    have a: "worker_steps 1 (W_Loop od (item # rest) done) s = (W_Loop od rest (done @ [item]), ?s1)"
      using False by simp
    have "worker_steps (1 + n) (W_Loop od (item # rest) done) s
          = (W_Done (fst (loop_result od rest (done @ [item]) ?s1)),
             snd (loop_result od rest (done @ [item]) ?s1))"
      by (simp only: worker_steps_add a n split_conv)
    moreover have "loop_result od rest (done @ [item]) ?s1 = loop_result od (item # rest) done s"
      using False by (simp add: loop_result_def split: sum.splits)
    ultimately have "worker_steps (1 + n) (W_Loop od (item # rest) done) s
        = (W_Done (fst (loop_result od (item # rest) done s)), snd (loop_result od (item # rest) done s))"
      by simp
    then show ?thesis by blast
  qed
qed

lemma worker_runs_to_process_order:
  "\<exists>n. worker_steps n (W_Start oid) s = (W_Done (fst (process_order oid s)), snd (process_order oid s))"
proof (cases "find_one (by_order_id oid) (order_history s)")
  case None
  then have "worker_steps 1 (W_Start oid) s
      = (W_Done (fst (process_order oid s)), snd (process_order oid s))"
    by (simp add: process_order_def)
  then show ?thesis by blast
next
  case (Some od)
  then have oid: "order_id od = oid"
    using find_one_Some_set [of "by_order_id oid" "order_history s" od] by (simp add: by_order_id_def)
  show ?thesis
  proof (cases "status od = PAID \<and> model_validate od = None")
    case False
    with Some have "worker_steps 1 (W_Start oid) s
        = (W_Done (fst (process_order oid s)), snd (process_order oid s))"
      by (auto simp: process_order_def split: option.splits)
    then show ?thesis by blast
  next
    case True
    from loop_steps [of od "items od" "[]" s] obtain n where
      n: "worker_steps n (W_Loop od (items od) []) s
          = (W_Done (fst (loop_result od (items od) [] s)), snd (loop_result od (items od) [] s))"
      by blast
    have a: "worker_steps 1 (W_Start oid) s = (W_Loop od (items od) [], s)"
      using Some True by simp
    have b: "worker_steps (1 + n) (W_Start oid) s
          = (W_Done (fst (loop_result od (items od) [] s)), snd (loop_result od (items od) [] s))"
      by (simp only: worker_steps_add a n split_conv)
    have "loop_result od (items od) [] s = process_order oid s"
      using Some True oid by (simp add: loop_result_def process_order_def split: sum.splits)
    with b have "worker_steps (1 + n) (W_Start oid) s
          = (W_Done (fst (process_order oid s)), snd (process_order oid s))"
      by (simp only:)
    then show ?thesis by (rule exI)
  qed
qed

end
